theory Spec2Isabelle
  imports Complex_Main "HOL-Library.Word"
begin

section \<open>Values, errors and JSON documents\<close>

text \<open>
  The module \<^verbatim>\<open>util/ipc.py\<close> sends JSON documents over an asyncio stream, each one
  behind a 4-byte length prefix. Python values that can occur in a packet are modelled
  by \<open>pyval\<close>: \<^verbatim>\<open>None\<close>, booleans, integers, floating point numbers, strings, lists,
  dictionaries with string keys (an association list in insertion order) and sets (the
  elements in the order in which the set iterates). A floating point number is given by
  its value, a rational number: the numbers of JSON are finite, so the infinities and
  \<^verbatim>\<open>nan\<close> do not occur, and \<^verbatim>\<open>-0.0\<close>, which Python finds equal to \<^verbatim>\<open>0.0\<close>, is not told
  apart from it.
\<close>

type_synonym byte = "8 word"

datatype pyval =
    PNone
  | PBool bool
  | PInt int
  | PFloat rat
  | PStr string
  | PList "pyval list"
  | PDict "(string \<times> pyval) list"
  | PSet "pyval list"

text \<open>The exceptions that the modelled code and the library calls it makes can raise.\<close>

datatype error =
    StructError         \<comment> \<open>\<^verbatim>\<open>struct.error\<close>: wrong buffer size, or number out of range\<close>
  | ValueError          \<comment> \<open>\<^verbatim>\<open>ValueError("Packet is too big to send...")\<close>\<close>
  | TypeError           \<comment> \<open>unhashable element, value that is not iterable, item assignment\<close>
  | JSONDecodeError     \<comment> \<open>the text is not a JSON document\<close>
  | UnicodeDecodeError  \<comment> \<open>the bytes are not UTF-8\<close>
  | AttributeError      \<comment> \<open>\<^verbatim>\<open>x.name\<close> where \<open>x\<close> has no such attribute or method\<close>
  | KeyError            \<comment> \<open>\<^verbatim>\<open>d[k]\<close> or \<^verbatim>\<open>packet.k\<close> where the key is missing\<close>

text \<open>A JSON document, as the library's encoder builds it and its parser returns it.\<close>

datatype json =
    JNull
  | JBool bool
  | JInt int
  | JFloat rat
  | JStr string
  | JArr "json list"
  | JObj "(string \<times> json) list"

section \<open>The frame: \<^verbatim>\<open>struct.pack(">i", n)\<close> and \<^verbatim>\<open>struct.unpack(">i", b)\<close>\<close>

text \<open>
  \<^verbatim>\<open>LENGTH_LENGTH = struct.calcsize(">i")\<close> is 4. Packing a number outside the signed
  32-bit range raises \<^verbatim>\<open>struct.error\<close>; a number inside it becomes its two's complement,
  most significant byte first. Unpacking needs a buffer of exactly 4 bytes.
\<close>

definition LENGTH_LENGTH :: int where
  "LENGTH_LENGTH = 4"

definition struct_pack_i :: "int \<Rightarrow> error + byte list" where
  "struct_pack_i n =
     (if - 2147483648 \<le> n \<and> n \<le> 2147483647
      then Inr [word_of_int (n div 16777216), word_of_int (n div 65536),
                word_of_int (n div 256), word_of_int n]
      else Inl StructError)"

definition struct_unpack_i :: "byte list \<Rightarrow> error + int" where
  "struct_unpack_i bs =
     (case bs of
        [a, b, c, d] \<Rightarrow>
          (let u = ((uint a * 256 + uint b) * 256 + uint c) * 256 + uint d
           in Inr (if 2147483648 \<le> u then u - 4294967296 else u))
      | _ \<Rightarrow> Inl StructError)"

text \<open>The value of a byte string read as an unsigned big-endian number.\<close>

definition be_nat :: "byte list \<Rightarrow> nat" where
  "be_nat bs = foldl (\<lambda>acc b. acc * 256 + unat b) 0 bs"

section \<open>The stream\<close>

text \<open>
  A \<^verbatim>\<open>Stream\<close> wraps an asyncio \<^verbatim>\<open>StreamReader\<close> and \<^verbatim>\<open>StreamWriter\<close>. The reader is
  modelled by the data still to come, cut into the pieces that successive calls of
  \<^verbatim>\<open>read\<close> find in the buffer; after the last piece the stream is at EOF. The writer is
  modelled by the arguments of its \<^verbatim>\<open>write\<close> calls so far.
\<close>

record stream =
  incoming :: "byte list list"
  written :: "byte list list"

text \<open>
  \<^verbatim>\<open>StreamReader.read(n)\<close>: with \<open>n = 0\<close> it returns \<^verbatim>\<open>b''\<close> at once; with \<open>n < 0\<close> it
  reads until EOF; with \<open>n > 0\<close> it returns at most \<open>n\<close> of the bytes that are in the
  buffer, and \<^verbatim>\<open>b''\<close> at EOF. Empty pieces are skipped, as \<^verbatim>\<open>feed_data\<close> ignores them.
\<close>

fun read_some :: "byte list list \<Rightarrow> nat \<Rightarrow> byte list \<times> byte list list" where
  "read_some [] n = ([], [])"
| "read_some (c # cs) n =
     (if c = [] then read_some cs n
      else (take n c, if drop n c = [] then cs else drop n c # cs))"

definition reader_read :: "stream \<Rightarrow> int \<Rightarrow> byte list \<times> stream" where
  "reader_read s n =
     (if n = 0 then ([], s)
      else if n < 0 then (concat (incoming s), s\<lparr>incoming := []\<rparr>)
      else (let (data, rest) = read_some (incoming s) (nat n)
            in (data, s\<lparr>incoming := rest\<rparr>)))"

definition writer_write :: "stream \<Rightarrow> byte list \<Rightarrow> stream" where
  "writer_write s packet = s\<lparr>written := written s @ [packet]\<rparr>"

text \<open>\<^verbatim>\<open>await self.writer.drain()\<close> under the drain lock waits for the transport; it
  changes nothing that the model keeps.\<close>

definition writer_drain :: "stream \<Rightarrow> stream" where
  "writer_drain s = s"

section \<open>Sets in JSON: \<^verbatim>\<open>CustomJSONEncoder.default\<close> and \<^verbatim>\<open>special_obj_hook\<close>\<close>

text \<open>
  \<^verbatim>\<open>default\<close> is called by the encoder for a value it cannot serialise itself. A set
  becomes \<^verbatim>\<open>dict(_set_object=list(obj))\<close>; anything else goes to the base class, which
  raises \<^verbatim>\<open>TypeError\<close>.
\<close>

fun default_hook :: "pyval \<Rightarrow> error + pyval" where
  "default_hook (PSet xs) = Inr (PDict [(''_set_object'', PList xs)])"
| "default_hook _ = Inl TypeError"

text \<open>
  The document that \<^verbatim>\<open>cj.dumps(data, cls=CustomJSONEncoder)\<close> serialises. Every value of
  \<open>pyval\<close> other than a set is serialised by the library directly; for a set the library
  serialises what \<open>default_hook\<close> returns (lemma \<open>to_json_set\<close> below).
\<close>

fun to_json :: "pyval \<Rightarrow> json" where
  "to_json PNone = JNull"
| "to_json (PBool b) = JBool b"
| "to_json (PInt i) = JInt i"
| "to_json (PFloat r) = JFloat r"
| "to_json (PStr s) = JStr s"
| "to_json (PList xs) = JArr (map to_json xs)"
| "to_json (PDict kvs) = JObj (map (\<lambda>(k, v). (k, to_json v)) kvs)"
| "to_json (PSet xs) = JObj [(''_set_object'', JArr (map to_json xs))]"

text \<open>
  Python's \<^verbatim>\<open>set(x)\<close>. Lists, dictionaries and sets are unhashable and cannot be
  elements. Numbers of equal value are equal and have equal hashes, whatever their type
  (\<^verbatim>\<open>True == 1 == 1.0\<close>), so a set holds only the first of two such elements;
  \<open>key_of\<close> maps the elements that Python finds equal to one value. A string iterates
  over its characters, a dictionary over its keys; \<^verbatim>\<open>None\<close>, booleans and numbers are not
  iterable.

  The order in which a set iterates over its elements follows their hashes and is not
  the order of insertion. The model leaves it open: \<open>set_iter\<close>, a parameter of
  everything that decodes, maps the elements of a new set, in the order of their
  insertion, to the order in which the set iterates.
\<close>

fun hashable :: "pyval \<Rightarrow> bool" where
  "hashable (PList _) = False"
| "hashable (PDict _) = False"
| "hashable (PSet _) = False"
| "hashable _ = True"

fun key_of :: "pyval \<Rightarrow> pyval" where
  "key_of (PBool b) = PInt (if b then 1 else 0)"
| "key_of (PFloat r) = (if r = of_int \<lfloor>r\<rfloor> then PInt \<lfloor>r\<rfloor> else PFloat r)"
| "key_of v = v"

definition set_add :: "pyval list \<Rightarrow> pyval \<Rightarrow> pyval list" where
  "set_add xs x = (if key_of x \<in> key_of ` set xs then xs else xs @ [x])"

definition set_of_list :: "(pyval list \<Rightarrow> pyval list) \<Rightarrow> pyval list \<Rightarrow> error + pyval" where
  "set_of_list set_iter xs =
     (if list_all hashable xs then Inr (PSet (set_iter (foldl set_add [] xs)))
      else Inl TypeError)"

fun py_set :: "(pyval list \<Rightarrow> pyval list) \<Rightarrow> pyval \<Rightarrow> error + pyval" where
  "py_set set_iter (PList xs) = set_of_list set_iter xs"
| "py_set set_iter (PSet xs) = set_of_list set_iter xs"
| "py_set set_iter (PStr s) = set_of_list set_iter (map (\<lambda>c. PStr [c]) s)"
| "py_set set_iter (PDict kvs) = set_of_list set_iter (map (\<lambda>(k, v). PStr k) kvs)"
| "py_set set_iter _ = Inl TypeError"

text \<open>A dictionary built from the pairs of a JSON object: a later pair overwrites the
  value of an earlier one with the same key.\<close>

fun dict_set :: "(string \<times> pyval) list \<Rightarrow> string \<Rightarrow> pyval \<Rightarrow> (string \<times> pyval) list" where
  "dict_set [] k v = [(k, v)]"
| "dict_set ((k', v') # kvs) k v =
     (if k' = k then (k, v) # kvs else (k', v') # dict_set kvs k v)"

definition dict_of_pairs :: "(string \<times> pyval) list \<Rightarrow> (string \<times> pyval) list" where
  "dict_of_pairs kvs = foldl (\<lambda>d (k, v). dict_set d k v) [] kvs"

definition special_obj_hook ::
  "(pyval list \<Rightarrow> pyval list) \<Rightarrow> (string \<times> pyval) list \<Rightarrow> error + pyval" where
  "special_obj_hook set_iter dct =
     (case map_of dct ''_set_object'' of
        Some v \<Rightarrow> py_set set_iter v
      | None \<Rightarrow> Inr (PDict dct))"

text \<open>
  The value that \<^verbatim>\<open>cj.loads(data, object_hook=special_obj_hook)\<close> builds from a parsed
  document: arrays become lists, and every object becomes a dictionary that is passed
  through the hook, innermost objects first.
\<close>

fun of_json :: "(pyval list \<Rightarrow> pyval list) \<Rightarrow> json \<Rightarrow> error + pyval"
  and of_json_list :: "(pyval list \<Rightarrow> pyval list) \<Rightarrow> json list \<Rightarrow> error + pyval list"
  and of_json_pairs ::
    "(pyval list \<Rightarrow> pyval list) \<Rightarrow> (string \<times> json) list \<Rightarrow> error + (string \<times> pyval) list"
  where
  "of_json set_iter JNull = Inr PNone"
| "of_json set_iter (JBool b) = Inr (PBool b)"
| "of_json set_iter (JInt i) = Inr (PInt i)"
| "of_json set_iter (JFloat r) = Inr (PFloat r)"
| "of_json set_iter (JStr s) = Inr (PStr s)"
| "of_json set_iter (JArr js) =
     (case of_json_list set_iter js of Inl e \<Rightarrow> Inl e | Inr xs \<Rightarrow> Inr (PList xs))"
| "of_json set_iter (JObj kjs) =
     (case of_json_pairs set_iter kjs of
        Inl e \<Rightarrow> Inl e
      | Inr kvs \<Rightarrow> special_obj_hook set_iter (dict_of_pairs kvs))"
| "of_json_list set_iter [] = Inr []"
| "of_json_list set_iter (j # js) =
     (case of_json set_iter j of
        Inl e \<Rightarrow> Inl e
      | Inr x \<Rightarrow>
          (case of_json_list set_iter js of Inl e \<Rightarrow> Inl e | Inr xs \<Rightarrow> Inr (x # xs)))"
| "of_json_pairs set_iter [] = Inr []"
| "of_json_pairs set_iter ((k, j) # kjs) =
     (case of_json set_iter j of
        Inl e \<Rightarrow> Inl e
      | Inr x \<Rightarrow>
          (case of_json_pairs set_iter kjs of
             Inl e \<Rightarrow> Inl e
           | Inr kvs \<Rightarrow> Inr ((k, x) # kvs)))"

text \<open>
  The text of a document is the library's business: \<open>render\<close> stands for
  \<^verbatim>\<open>json.dumps(...).encode()\<close> on a document and \<open>parse\<close> for the parser of
  \<^verbatim>\<open>json.loads\<close>, which gives the document or raises \<^verbatim>\<open>JSONDecodeError\<close> or
  \<^verbatim>\<open>UnicodeDecodeError\<close>; both are parameters of everything below, as \<open>set_iter\<close> is.
\<close>

definition dumps :: "(json \<Rightarrow> byte list) \<Rightarrow> pyval \<Rightarrow> byte list" where
  "dumps render data = render (to_json data)"

definition loads :: "(pyval list \<Rightarrow> pyval list) \<Rightarrow> (byte list \<Rightarrow> error + json) \<Rightarrow> byte list \<Rightarrow> error + pyval" where
  "loads set_iter parse data =
     (case parse data of Inl e \<Rightarrow> Inl e | Inr j \<Rightarrow> of_json set_iter j)"

section \<open>\<^verbatim>\<open>Stream.read_packet\<close> and \<^verbatim>\<open>Stream.write_packet\<close>\<close>

definition read_packet ::
  "(pyval list \<Rightarrow> pyval list) \<Rightarrow> (byte list \<Rightarrow> error + json) \<Rightarrow> stream \<Rightarrow> (error + pyval) \<times> stream" where
  "read_packet set_iter parse s =
     (let (header, s1) = reader_read s LENGTH_LENGTH
      in case struct_unpack_i header of
           Inl e \<Rightarrow> (Inl e, s1)
         | Inr len \<Rightarrow>
             (let (data, s2) = reader_read s1 len
              in (loads set_iter parse data, s2)))"

definition write_packet ::
  "(json \<Rightarrow> byte list) \<Rightarrow> pyval \<Rightarrow> stream \<Rightarrow> (error + unit) \<times> stream" where
  "write_packet render data s =
     (let data' = dumps render data
      in case struct_pack_i (int (length data')) of
           Inl e \<Rightarrow> (Inl e, s)
         | Inr prefix \<Rightarrow>
             (let packet = prefix @ data'
              in if length packet > 65535 then (Inl ValueError, s)
                 else (Inr (), writer_drain (writer_write s packet))))"

section \<open>Packets as objects\<close>

text \<open>
  A decoded packet is a \<^verbatim>\<open>ClassyDict\<close>: \<^verbatim>\<open>packet.name\<close> is the value under the key
  \<open>name\<close>, and the lookup raises \<^verbatim>\<open>KeyError\<close> when the key is missing. A decoded value
  that is not a dictionary has no such attribute and no \<^verbatim>\<open>get\<close> method either.
\<close>

fun getattr :: "pyval \<Rightarrow> string \<Rightarrow> error + pyval" where
  "getattr (PDict kvs) name =
     (case map_of kvs name of Some v \<Rightarrow> Inr v | None \<Rightarrow> Inl KeyError)"
| "getattr _ name = Inl AttributeError"

fun dict_get :: "pyval \<Rightarrow> string \<Rightarrow> pyval \<Rightarrow> error + pyval" where
  "dict_get (PDict kvs) k d = Inr (case map_of kvs k of Some v \<Rightarrow> v | None \<Rightarrow> d)"
| "dict_get _ k d = Inl AttributeError"

text \<open>\<^verbatim>\<open>packet["id"] = v\<close>: only a dictionary takes a string key.\<close>

fun setitem :: "pyval \<Rightarrow> string \<Rightarrow> pyval \<Rightarrow> error + pyval" where
  "setitem (PDict kvs) k v = Inr (PDict (dict_set kvs k v))"
| "setitem _ k v = Inl TypeError"

text \<open>
  \<^verbatim>\<open>k in d\<close> and \<^verbatim>\<open>d[k]\<close> for a dictionary \<open>d\<close> whose keys are strings: an unhashable
  \<open>k\<close> raises \<^verbatim>\<open>TypeError\<close>, and a \<open>k\<close> that is not a string equals no key. The
  result is the key of \<open>d\<close> that \<open>k\<close> equals, if there is one.
\<close>

definition find_key :: "(string \<rightharpoonup> 'a) \<Rightarrow> pyval \<Rightarrow> error + string option" where
  "find_key d k =
     (if \<not> hashable k then Inl TypeError
      else Inr (case k of
                  PStr s \<Rightarrow> (if d s \<noteq> None then Some s else None)
                | _ \<Rightarrow> None))"

text \<open>The decimal digits of a number, as \<^verbatim>\<open>f"{n}"\<close> prints them.\<close>

definition digit :: "nat \<Rightarrow> char" where
  "digit d = ''0123456789'' ! d"

function str_nat :: "nat \<Rightarrow> string" where
  "str_nat n = (if n < 10 then [digit n] else str_nat (n div 10) @ [digit (n mod 10)])"
  by pat_completeness auto
termination
  by (relation "measure id") auto

declare str_nat.simps [simp del]

section \<open>The client\<close>

datatype coroutine = Running | Done | Failed error

text \<open>
  The fields of \<^verbatim>\<open>Client\<close> once the connection is open. An entry of
  \<open>expected_packets\<close> is the pair \<^verbatim>\<open>[event, packet]\<close>: whether the event is set, and the
  slot (\<^verbatim>\<open>None\<close> at first). \<open>current_id\<close> starts at 0 and is only ever incremented.
  \<open>broadcasts\<close> lists the packets for which a \<^verbatim>\<open>handle_broadcast\<close> task has been
  created, and \<open>read_task\<close> is the state of the task that runs \<^verbatim>\<open>read_packets\<close>.
\<close>

record client =
  stream :: stream
  expected_packets :: "string \<rightharpoonup> (bool \<times> pyval)"
  current_id :: nat
  broadcasts :: "pyval list"
  read_task :: coroutine

definition client_init :: "byte list list \<Rightarrow> client" where
  "client_init input =
     \<lparr>stream = \<lparr>incoming = input, written = []\<rparr>, expected_packets = Map.empty,
      current_id = 0, broadcasts = [], read_task = Running\<rparr>"

text \<open>One pass through the body of \<^verbatim>\<open>while True\<close> in \<^verbatim>\<open>read_packets\<close>. An exception
  ends the task.\<close>

definition read_packets_iter :: "(pyval list \<Rightarrow> pyval list) \<Rightarrow> (byte list \<Rightarrow> error + json) \<Rightarrow> client \<Rightarrow> client" where
  "read_packets_iter set_iter parse c =
     (let (r, s') = read_packet set_iter parse (stream c);
          c1 = c\<lparr>stream := s'\<rparr>
      in case r of
           Inl e \<Rightarrow> c1\<lparr>read_task := Failed e\<rparr>
         | Inr packet \<Rightarrow>
             (case getattr packet ''id'' of
                Inl e \<Rightarrow> c1\<lparr>read_task := Failed e\<rparr>
              | Inr pid \<Rightarrow>
                  (case find_key (expected_packets c1) pid of
                     Inl e \<Rightarrow> c1\<lparr>read_task := Failed e\<rparr>
                   | Inr (Some k) \<Rightarrow>
                       c1\<lparr>expected_packets := (expected_packets c1)(k \<mapsto> (True, packet))\<rparr>
                   | Inr None \<Rightarrow> c1\<lparr>broadcasts := broadcasts c1 @ [packet]\<rparr>)))"

definition send ::
  "(json \<Rightarrow> byte list) \<Rightarrow> pyval \<Rightarrow> client \<Rightarrow> (error + unit) \<times> client" where
  "send render packet c =
     (let (r, s') = write_packet render packet (stream c) in (r, c\<lparr>stream := s'\<rparr>))"

text \<open>
  \<^verbatim>\<open>request\<close> up to its first suspension: the id is stored in the caller's packet, the
  counter is incremented, the entry is created and the packet is sent. The result is
  the caller's packet as the call leaves it, the client, and either the exception
  raised or the id on whose event the call now waits.
\<close>

definition request_start ::
  "(json \<Rightarrow> byte list) \<Rightarrow> pyval \<Rightarrow> client \<Rightarrow> pyval \<times> client \<times> (error + string)" where
  "request_start render packet c =
     (let packet_id = ''c'' @ str_nat (current_id c)
      in case setitem packet ''id'' (PStr packet_id) of
           Inl e \<Rightarrow> (packet, c, Inl e)
         | Inr packet' \<Rightarrow>
             (let c1 = c\<lparr>current_id := current_id c + 1\<rparr>;
                  c2 = c1\<lparr>expected_packets := (expected_packets c1)(packet_id \<mapsto> (False, PNone))\<rparr>;
                  (r, c3) = send render packet' c2
              in case r of
                   Inl e \<Rightarrow> (packet', c3, Inl e)
                 | Inr _ \<Rightarrow> (packet', c3, Inr packet_id)))"

text \<open>
  The rest of \<^verbatim>\<open>request\<close>: \<^verbatim>\<open>await event.wait()\<close> lets the call go on once the event of
  its entry is set, and the call returns the slot of the entry. \<open>None\<close> means that the
  call is still waiting.
\<close>

definition request_finish :: "string \<Rightarrow> client \<Rightarrow> pyval option" where
  "request_finish packet_id c =
     (case expected_packets c packet_id of
        Some (True, packet) \<Rightarrow> Some packet
      | _ \<Rightarrow> None)"

text \<open>
  The tasks of a client interleave at their suspension points. A run is a sequence of
  events: a task calls \<^verbatim>\<open>request\<close>, the read task completes one pass of its loop, or
  the call waiting on an id is resumed. Each event leaves an observation.
\<close>

datatype cevent = Request pyval | ReadPacket | Resume string

datatype cobs =
    Waiting string pyval      \<comment> \<open>a call of \<^verbatim>\<open>request\<close> waits on this id; its packet\<close>
  | Raised error pyval        \<comment> \<open>a call of \<^verbatim>\<open>request\<close> raised; its packet\<close>
  | Returned string pyval     \<comment> \<open>the call waiting on this id returned this value\<close>
  | Idle

definition client_step ::
  "(json \<Rightarrow> byte list) \<Rightarrow> (pyval list \<Rightarrow> pyval list) \<Rightarrow> (byte list \<Rightarrow> error + json) \<Rightarrow> client \<Rightarrow> cevent \<Rightarrow> client \<times> cobs" where
  "client_step render set_iter parse c ev =
     (case ev of
        Request packet \<Rightarrow>
          (let (packet', c', r) = request_start render packet c
           in (c', case r of Inl e \<Rightarrow> Raised e packet' | Inr k \<Rightarrow> Waiting k packet'))
      | ReadPacket \<Rightarrow>
          (if read_task c = Running then (read_packets_iter set_iter parse c, Idle) else (c, Idle))
      | Resume k \<Rightarrow>
          (case request_finish k c of
             Some v \<Rightarrow> (c, Returned k v)
           | None \<Rightarrow> (c, Idle)))"

fun client_run ::
  "(json \<Rightarrow> byte list) \<Rightarrow> (pyval list \<Rightarrow> pyval list) \<Rightarrow> (byte list \<Rightarrow> error + json) \<Rightarrow> client \<Rightarrow> cevent list \<Rightarrow> client \<times> cobs list" where
  "client_run render set_iter parse c [] = (c, [])"
| "client_run render set_iter parse c (ev # evs) =
     (let (c1, ob) = client_step render set_iter parse c ev;
          (c2, obs) = client_run render set_iter parse c1 evs
      in (c2, ob # obs))"

section \<open>The server\<close>

text \<open>
  Every call of \<^verbatim>\<open>handle_connection\<close> is a task with its own \<^verbatim>\<open>Stream\<close> and its own
  local \<open>authed\<close>. The server keeps them in \<open>conns\<close>, in the order of the calls; the
  position of a task stands for its \<^verbatim>\<open>Stream\<close> object in \<open>connections\<close> and in the
  handler tasks. \<open>packet_handlers\<close> holds the keys of the handler registry, and
  \<open>tasks\<close> lists the handler tasks created: the key of the handler, the stream and the
  packet.
\<close>

record connection =
  conn_stream :: stream
  authed :: bool
  state :: coroutine

record server =
  auth :: string
  packet_handlers :: "string list"
  connections :: "nat list"
  closing :: bool
  conns :: "connection list"
  tasks :: "(string \<times> nat \<times> pyval) list"

definition server_init :: "string \<Rightarrow> string list \<Rightarrow> server" where
  "server_init secret handlers =
     \<lparr>auth = secret, packet_handlers = handlers, connections = [], closing = False,
      conns = [], tasks = []\<rparr>"

text \<open>The first lines of \<^verbatim>\<open>handle_connection\<close>, up to the loop.\<close>

definition accept :: "byte list list \<Rightarrow> server \<Rightarrow> server" where
  "accept input s =
     s\<lparr>conns := conns s @ [\<lparr>conn_stream = \<lparr>incoming = input, written = []\<rparr>,
                              authed = False, state = Running\<rparr>],
       connections := connections s @ [length (conns s)]\<rparr>"

definition auth_response :: "bool \<Rightarrow> pyval \<Rightarrow> pyval" where
  "auth_response success pid =
     PDict [(''type'', PStr ''auth-response''), (''success'', PBool success), (''id'', pid)]"

text \<open>
  \<^verbatim>\<open>self.packet_handlers.get(packet.type, self.packet_handlers["missing-packet"])\<close>:
  the default is looked up before \<^verbatim>\<open>get\<close> is called, whether it is needed or not.
\<close>

definition choose_handler :: "string list \<Rightarrow> pyval \<Rightarrow> error + string" where
  "choose_handler handlers t =
     (if ''missing-packet'' \<notin> set handlers then Inl KeyError
      else if \<not> hashable t then Inl TypeError
      else Inr (case t of
                  PStr k \<Rightarrow> (if k \<in> set handlers then k else ''missing-packet'')
                | _ \<Rightarrow> ''missing-packet''))"

definition set_conn :: "nat \<Rightarrow> connection \<Rightarrow> server \<Rightarrow> server" where
  "set_conn i cn s = s\<lparr>conns := (conns s)[i := cn]\<rparr>"

text \<open>
  One pass through the loop of \<^verbatim>\<open>handle_connection\<close> for the task at position \<open>i\<close>,
  from the test of \<^verbatim>\<open>self.closing\<close> to the next one. The task ends when the test
  fails, at a \<^verbatim>\<open>return\<close>, or with an exception.
\<close>

definition handle_connection_iter ::
  "(json \<Rightarrow> byte list) \<Rightarrow> (pyval list \<Rightarrow> pyval list) \<Rightarrow> (byte list \<Rightarrow> error + json) \<Rightarrow> nat \<Rightarrow> server \<Rightarrow> server" where
  "handle_connection_iter render set_iter parse i s =
     (let cn = conns s ! i
      in if closing s then set_conn i (cn\<lparr>state := Done\<rparr>) s
         else
           (let (r, st) = read_packet set_iter parse (conn_stream cn);
                cn1 = cn\<lparr>conn_stream := st\<rparr>
            in case r of
                 Inl e \<Rightarrow> set_conn i (cn1\<lparr>state := Failed e\<rparr>) s
               | Inr packet \<Rightarrow>
                   (if \<not> authed cn1 then
                      (case dict_get packet ''auth'' PNone of
                         Inl e \<Rightarrow> set_conn i (cn1\<lparr>state := Failed e\<rparr>) s
                       | Inr a \<Rightarrow>
                           (if a = PStr (auth s) then
                              (let cn2 = cn1\<lparr>authed := True\<rparr>
                               in case getattr packet ''id'' of
                                    Inl e \<Rightarrow> set_conn i (cn2\<lparr>state := Failed e\<rparr>) s
                                  | Inr pid \<Rightarrow>
                                      (case write_packet render (auth_response True pid) (conn_stream cn2) of
                                         (Inl e, st') \<Rightarrow>
                                           set_conn i (cn2\<lparr>conn_stream := st', state := Failed e\<rparr>) s
                                       | (Inr _, st') \<Rightarrow>
                                           set_conn i (cn2\<lparr>conn_stream := st'\<rparr>) s))
                            else
                              (case getattr packet ''id'' of
                                 Inl e \<Rightarrow> set_conn i (cn1\<lparr>state := Failed e\<rparr>) s
                               | Inr pid \<Rightarrow>
                                   (case write_packet render (auth_response False pid) (conn_stream cn1) of
                                      (Inl e, st') \<Rightarrow>
                                        set_conn i (cn1\<lparr>conn_stream := st', state := Failed e\<rparr>) s
                                    | (Inr _, st') \<Rightarrow>
                                        set_conn i (cn1\<lparr>conn_stream := st', state := Done\<rparr>) s))))
                    else
                      (case getattr packet ''type'' of
                         Inl e \<Rightarrow> set_conn i (cn1\<lparr>state := Failed e\<rparr>) s
                       | Inr t \<Rightarrow>
                           (if t = PStr ''disconnect'' then
                              (if i \<in> set (connections s)
                               then set_conn i (cn1\<lparr>state := Done\<rparr>)
                                      (s\<lparr>connections := remove1 i (connections s)\<rparr>)
                               else set_conn i (cn1\<lparr>state := Failed ValueError\<rparr>) s)
                            else
                              (case choose_handler (packet_handlers s) t of
                                 Inl e \<Rightarrow> set_conn i (cn1\<lparr>state := Failed e\<rparr>) s
                               | Inr h \<Rightarrow>
                                   set_conn i cn1 (s\<lparr>tasks := tasks s @ [(h, i, packet)]\<rparr>)))))))"

text \<open>
  The tasks of the server interleave at their suspension points. A run is a sequence of
  events: a connection is accepted with the data that will arrive on it, the task at a
  position completes one pass of its loop, or \<^verbatim>\<open>close\<close> sets \<^verbatim>\<open>self.closing\<close>.
\<close>

datatype sevent = Accept "byte list list" | Iterate nat | Close

definition server_step ::
  "(json \<Rightarrow> byte list) \<Rightarrow> (pyval list \<Rightarrow> pyval list) \<Rightarrow> (byte list \<Rightarrow> error + json) \<Rightarrow> server \<Rightarrow> sevent \<Rightarrow> server" where
  "server_step render set_iter parse s ev =
     (case ev of
        Accept input \<Rightarrow> accept input s
      | Iterate i \<Rightarrow>
          (if i < length (conns s) \<and> state (conns s ! i) = Running
           then handle_connection_iter render set_iter parse i s else s)
      | Close \<Rightarrow> s\<lparr>closing := True\<rparr>)"

definition server_run ::
  "(json \<Rightarrow> byte list) \<Rightarrow> (pyval list \<Rightarrow> pyval list) \<Rightarrow> (byte list \<Rightarrow> error + json) \<Rightarrow> server \<Rightarrow> sevent list \<Rightarrow> server" where
  "server_run render set_iter parse s evs = foldl (server_step render set_iter parse) s evs"

section \<open>Notions used in the statements\<close>


text \<open>
  Python's \<^verbatim>\<open>==\<close> on well-formed values. Lists are equal when their elements are, one by
  one; dictionaries when they have the same keys with equal values, in any order; sets
  when they have the same elements, in any order; numbers when their values are equal.
\<close>

fun py_eq :: "pyval \<Rightarrow> pyval \<Rightarrow> bool" where
  "py_eq (PList xs) (PList ys) = list_all2 py_eq xs ys"
| "py_eq (PDict a) (PDict b) =
     (fst ` set a = fst ` set b
      \<and> (\<forall>(k, v) \<in> set a. \<forall>(k', v') \<in> set b. k = k' \<longrightarrow> py_eq v v'))"
| "py_eq (PSet xs) (PSet ys) = (key_of ` set xs = key_of ` set ys)"
| "py_eq x y = (hashable x \<and> hashable y \<and> key_of x = key_of y)"


text \<open>The ids on which the calls of \<^verbatim>\<open>request\<close> in a run wait, in the order of the calls.\<close>

fun assigned :: "cobs list \<Rightarrow> string list" where
  "assigned [] = []"
| "assigned (Waiting k p # obs) = k # assigned obs"
| "assigned (_ # obs) = assigned obs"

text \<open>The next pass of the task at position \<open>i\<close> reads a \<^verbatim>\<open>disconnect\<close> packet while
  authenticated.\<close>

definition reads_disconnect :: "(pyval list \<Rightarrow> pyval list) \<Rightarrow> (byte list \<Rightarrow> error + json) \<Rightarrow> server \<Rightarrow> nat \<Rightarrow> bool" where
  "reads_disconnect set_iter parse s i =
     (authed (conns s ! i) \<and>
      (case fst (read_packet set_iter parse (conn_stream (conns s ! i))) of
         Inl e \<Rightarrow> False
       | Inr packet \<Rightarrow> getattr packet ''type'' = Inr (PStr ''disconnect'')))"

text \<open>The handler tasks created for the stream at position \<open>i\<close>.\<close>

definition tasks_of :: "nat \<Rightarrow> server \<Rightarrow> (string \<times> nat \<times> pyval) list" where
  "tasks_of i s = filter (\<lambda>(h, j, packet). j = i) (tasks s)"

section \<open>Sample documents\<close>

text \<open>
  The examples below run the code on concrete frames. \<open>sample_texts\<close> lists the
  documents that occur in them with the text that \<^verbatim>\<open>json.dumps\<close> gives each, UTF-8
  encoded; \<open>sample_render\<close> and \<open>sample_parse\<close> are the library's serialiser and
  parser on these documents and texts.
\<close>

definition sample_texts :: "(json \<times> byte list) list" where
  \<open>sample_texts = [
   \<comment> \<open>\<^verbatim>\<open>12\<close>\<close>
   (JInt 12,
    [49, 50]),
   \<comment> \<open>\<^verbatim>\<open>{"id": "c0"}\<close>\<close>
   (JObj [(''id'', JStr ''c0'')],
    [123, 34, 105, 100, 34, 58, 32, 34, 99, 48, 34, 125]),
   \<comment> \<open>\<^verbatim>\<open>{"id": "c1"}\<close>\<close>
   (JObj [(''id'', JStr ''c1'')],
    [123, 34, 105, 100, 34, 58, 32, 34, 99, 49, 34, 125]),
   \<comment> \<open>\<^verbatim>\<open>{"type": "exec-response", "response": "None"}\<close>\<close>
   (JObj [(''type'', JStr ''exec-response''), (''response'', JStr ''None'')],
    [123, 34, 116, 121, 112, 101, 34, 58, 32, 34, 101, 120, 101, 99, 45, 114, 101, 115, 112,
     111, 110, 115, 101, 34, 44, 32, 34, 114, 101, 115, 112, 111, 110, 115, 101, 34, 58, 32,
     34, 78, 111, 110, 101, 34, 125]),
   \<comment> \<open>\<^verbatim>\<open>{"type": "broadcast", "id": "b0"}\<close>\<close>
   (JObj [(''type'', JStr ''broadcast''), (''id'', JStr ''b0'')],
    [123, 34, 116, 121, 112, 101, 34, 58, 32, 34, 98, 114, 111, 97, 100, 99, 97, 115, 116, 34,
     44, 32, 34, 105, 100, 34, 58, 32, 34, 98, 48, 34, 125]),
   \<comment> \<open>\<^verbatim>\<open>{"type": "auth"}\<close>\<close>
   (JObj [(''type'', JStr ''auth'')],
    [123, 34, 116, 121, 112, 101, 34, 58, 32, 34, 97, 117, 116, 104, 34, 125]),
   \<comment> \<open>\<^verbatim>\<open>{"type": "auth", "auth": "wrong", "id": "c0"}\<close>\<close>
   (JObj [(''type'', JStr ''auth''), (''auth'', JStr ''wrong''), (''id'', JStr ''c0'')],
    [123, 34, 116, 121, 112, 101, 34, 58, 32, 34, 97, 117, 116, 104, 34, 44, 32, 34, 97, 117,
     116, 104, 34, 58, 32, 34, 119, 114, 111, 110, 103, 34, 44, 32, 34, 105, 100, 34, 58, 32,
     34, 99, 48, 34, 125]),
   \<comment> \<open>\<^verbatim>\<open>{"type": "auth", "auth": "secret", "id": "c0"}\<close>\<close>
   (JObj [(''type'', JStr ''auth''), (''auth'', JStr ''secret''), (''id'', JStr ''c0'')],
    [123, 34, 116, 121, 112, 101, 34, 58, 32, 34, 97, 117, 116, 104, 34, 44, 32, 34, 97, 117,
     116, 104, 34, 58, 32, 34, 115, 101, 99, 114, 101, 116, 34, 44, 32, 34, 105, 100, 34, 58,
     32, 34, 99, 48, 34, 125]),
   \<comment> \<open>\<^verbatim>\<open>{"type": "disconnect"}\<close>\<close>
   (JObj [(''type'', JStr ''disconnect'')],
    [123, 34, 116, 121, 112, 101, 34, 58, 32, 34, 100, 105, 115, 99, 111, 110, 110, 101, 99,
     116, 34, 125]),
   \<comment> \<open>\<^verbatim>\<open>{"type": "eval", "code": "1", "id": "c0"}\<close>\<close>
   (JObj [(''type'', JStr ''eval''), (''code'', JStr ''1''), (''id'', JStr ''c0'')],
    [123, 34, 116, 121, 112, 101, 34, 58, 32, 34, 101, 118, 97, 108, 34, 44, 32, 34, 99, 111,
     100, 101, 34, 58, 32, 34, 49, 34, 44, 32, 34, 105, 100, 34, 58, 32, 34, 99, 48, 34, 125]),
   \<comment> \<open>\<^verbatim>\<open>{"type": "eval", "code": "2", "id": "c1"}\<close>\<close>
   (JObj [(''type'', JStr ''eval''), (''code'', JStr ''2''), (''id'', JStr ''c1'')],
    [123, 34, 116, 121, 112, 101, 34, 58, 32, 34, 101, 118, 97, 108, 34, 44, 32, 34, 99, 111,
     100, 101, 34, 58, 32, 34, 50, 34, 44, 32, 34, 105, 100, 34, 58, 32, 34, 99, 49, 34, 125]),
   \<comment> \<open>\<^verbatim>\<open>{"type": "auth-response", "success": false, "id": "c0"}\<close>\<close>
   (JObj [(''type'', JStr ''auth-response''), (''success'', JBool False), (''id'', JStr ''c0'')],
    [123, 34, 116, 121, 112, 101, 34, 58, 32, 34, 97, 117, 116, 104, 45, 114, 101, 115, 112,
     111, 110, 115, 101, 34, 44, 32, 34, 115, 117, 99, 99, 101, 115, 115, 34, 58, 32, 102, 97,
     108, 115, 101, 44, 32, 34, 105, 100, 34, 58, 32, 34, 99, 48, 34, 125]),
   \<comment> \<open>\<^verbatim>\<open>{"type": "auth-response", "success": true, "id": "c0"}\<close>\<close>
   (JObj [(''type'', JStr ''auth-response''), (''success'', JBool True), (''id'', JStr ''c0'')],
    [123, 34, 116, 121, 112, 101, 34, 58, 32, 34, 97, 117, 116, 104, 45, 114, 101, 115, 112,
     111, 110, 115, 101, 34, 44, 32, 34, 115, 117, 99, 99, 101, 115, 115, 34, 58, 32, 116, 114,
     117, 101, 44, 32, 34, 105, 100, 34, 58, 32, 34, 99, 48, 34, 125])]\<close>

definition sample_render :: "json \<Rightarrow> byte list" where
  "sample_render j = (case map_of sample_texts j of Some t \<Rightarrow> t | None \<Rightarrow> [])"

definition sample_parse :: "byte list \<Rightarrow> error + json" where
  "sample_parse t =
     (case map_of (map (\<lambda>(j, t). (t, j)) sample_texts) t of
        Some j \<Rightarrow> Inr j
      | None \<Rightarrow> Inl JSONDecodeError)"

text \<open>In the examples a new set iterates over its elements in the reverse of the order
  of their insertion.\<close>

definition sample_iter :: "pyval list \<Rightarrow> pyval list" where
  "sample_iter xs = rev xs"

text \<open>The frame that \<^verbatim>\<open>write_packet\<close> writes for a sample document.\<close>

definition sample_frame :: "json \<Rightarrow> byte list" where
  "sample_frame j =
     (case struct_pack_i (int (length (sample_render j))) of
        Inr prefix \<Rightarrow> prefix @ sample_render j
      | Inl e \<Rightarrow> [])"

text \<open>
  A payload of any size: the dictionary \<^verbatim>\<open>{"a": "aa...a"}\<close> with a string of \<open>n\<close>
  letters, and its text, which has \<open>n + 9\<close> bytes.
\<close>

definition long_payload :: "nat \<Rightarrow> pyval" where
  "long_payload n = PDict [(''a'', PStr (replicate n CHR ''a''))]"

definition long_render :: "json \<Rightarrow> byte list" where
  "long_render j =
     (case j of
        JObj [(k, JStr v)] \<Rightarrow>
          [123, 34] @ map (\<lambda>c. word_of_nat (of_char c)) k @ [34, 58, 32, 34]
            @ map (\<lambda>c. word_of_nat (of_char c)) v @ [34, 125]
      | _ \<Rightarrow> [])"

section \<open>Frames\<close>

lemma unat_byte_of_int: "0 \<le> k \<Longrightarrow> unat (word_of_int k :: byte) = nat k mod 256"
  by (simp add: unat_eq_nat_uint uint_word_of_int nat_mod_distrib)

lemma be_nat4: "be_nat [a, b, c, d] = ((unat a * 256 + unat b) * 256 + unat c) * 256 + unat d"
  by (simp add: be_nat_def)

lemma split4:
  fixes n :: nat
  assumes "n < 4294967296"
  shows "((n div 16777216 mod 256 * 256 + n div 65536 mod 256) * 256 + n div 256 mod 256) * 256
           + n mod 256 = n"
proof -
  have e1: "n div 65536 div 256 = n div 16777216" and e2: "n div 256 div 256 = n div 65536"
    by (simp_all add: div_mult2_eq [symmetric])
  have a: "n div 16777216 mod 256 = n div 16777216" using assms by simp
  have b: "n div 65536 = (n div 16777216) * 256 + n div 65536 mod 256"
    using div_mult_mod_eq [of "n div 65536" 256] by (simp add: e1)
  have c: "n div 256 = (n div 65536) * 256 + n div 256 mod 256"
    using div_mult_mod_eq [of "n div 256" 256] by (simp add: e2)
  have d: "n = (n div 256) * 256 + n mod 256" by simp
  show ?thesis using a b c d by simp
qed

lemma struct_pack_i_nat:
  assumes "n \<le> 2147483647"
  shows "\<exists>p. struct_pack_i (int n) = Inr p \<and> length p = 4 \<and> be_nat p = n"
proof -
  have d: "nat (int n div k) = n div nat k" if "0 < k" for k :: int
    using that by (simp add: nat_div_distrib)
  have "n < 4294967296" using assms by simp
  from split4 [OF this] show ?thesis
    using assms by (simp add: struct_pack_i_def be_nat4 unat_byte_of_int d unat_of_nat)
qed

lemma struct_pack_i_big: "2147483647 < n \<Longrightarrow> struct_pack_i (int n) = Inl StructError"
  by (simp add: struct_pack_i_def)

lemma write_packet_ok:
  assumes "length (dumps render data) \<le> 65531"
  shows "\<exists>p. length p = 4 \<and> be_nat p = length (dumps render data)
           \<and> write_packet render data s =
               (Inr (), s\<lparr>written := written s @ [p @ dumps render data]\<rparr>)"
proof -
  from assms have "length (dumps render data) \<le> 2147483647" by simp
  from struct_pack_i_nat [OF this] obtain p where
    p: "struct_pack_i (int (length (dumps render data))) = Inr p" "length p = 4"
       "be_nat p = length (dumps render data)" by blast
  with assms show ?thesis
    by (intro exI [of _ p]) (simp add: write_packet_def Let_def writer_write_def writer_drain_def)
qed

lemma write_packet_too_big:
  assumes "65531 < length (dumps render data)" "length (dumps render data) \<le> 2147483647"
  shows "write_packet render data s = (Inl ValueError, s)"
proof -
  from struct_pack_i_nat [OF assms(2)] obtain p where
    p: "struct_pack_i (int (length (dumps render data))) = Inr p" "length p = 4" by blast
  with assms show ?thesis
    by (simp add: write_packet_def Let_def)
qed

lemma write_packet_huge:
  assumes "2147483647 < length (dumps render data)"
  shows "write_packet render data s = (Inl StructError, s)"
  using struct_pack_i_big [OF assms] by (simp add: write_packet_def Let_def)

lemma write_packet_incoming: "incoming (snd (write_packet render data s)) = incoming s"
  by (simp add: write_packet_def Let_def writer_write_def writer_drain_def split: sum.splits)

lemma sample_render_disconnect:
  "dumps sample_render (PDict [(''type'', PStr ''disconnect'')]) =
     [123, 34, 116, 121, 112, 101, 34, 58, 32, 34, 100, 105, 115, 99, 111, 110, 110, 101, 99,
      116, 34, 125]"
  by (simp add: dumps_def sample_render_def sample_texts_def)

lemma length_long_payload: "length (dumps long_render (long_payload n)) = n + 9"
  by (simp add: dumps_def long_render_def long_payload_def)

subsection \<open>The shape of a frame\<close>

text \<open>
  Claim C8. For every payload whose serialised form has \<open>N\<close> bytes with \<open>N \<le> 65531\<close>,
  \<^verbatim>\<open>write_packet\<close> writes exactly one frame of \<open>4 + N\<close> bytes: its first 4 bytes are
  \<open>N\<close> as a big-endian unsigned number, and the \<open>N\<close> bytes of the payload follow.
\<close>

theorem write_packet_frame_shape:
  assumes "length (dumps render data) = N" and "N \<le> 65531"
  shows "\<exists>frame. write_packet render data s = (Inr (), s\<lparr>written := written s @ [frame]\<rparr>)
           \<and> length frame = 4 + N \<and> be_nat (take 4 frame) = N
           \<and> drop 4 frame = dumps render data"
proof -
  from assms have "length (dumps render data) \<le> 65531" by simp
  from write_packet_ok [OF this, of s] obtain p where
    p: "length p = 4" "be_nat p = length (dumps render data)"
       "write_packet render data s =
          (Inr (), s\<lparr>written := written s @ [p @ dumps render data]\<rparr>)"
    by blast
  show ?thesis
  proof (intro exI conjI)
    show "write_packet render data s =
            (Inr (), s\<lparr>written := written s @ [p @ dumps render data]\<rparr>)"
      by (rule p(3))
    show "length (p @ dumps render data) = 4 + N" using p(1) assms(1) by simp
    show "be_nat (take 4 (p @ dumps render data)) = N" using p(1,2) assms(1) by simp
    show "drop 4 (p @ dumps render data) = dumps render data" using p(1) by simp
  qed
qed

text \<open>The frame of \<^verbatim>\<open>{"type": "disconnect"}\<close>, whose text has 22 bytes.\<close>

theorem write_packet_frame_shape_witness:
  "length (dumps sample_render (PDict [(''type'', PStr ''disconnect'')])) = 22 \<and> (22::nat) \<le> 65531
   \<and> (\<exists>frame. write_packet sample_render (PDict [(''type'', PStr ''disconnect'')])
                 \<lparr>incoming = [], written = []\<rparr>
               = (Inr (), \<lparr>incoming = [], written = [frame]\<rparr>)
             \<and> length frame = 4 + 22 \<and> be_nat (take 4 frame) = 22
             \<and> drop 4 frame = dumps sample_render (PDict [(''type'', PStr ''disconnect'')]))"
proof -
  have l: "length (dumps sample_render (PDict [(''type'', PStr ''disconnect'')])) = 22"
    by (simp add: sample_render_disconnect)
  have b: "(22::nat) \<le> 65531" by simp
  from write_packet_frame_shape [OF l b, of "\<lparr>incoming = [], written = []\<rparr>"]
  show ?thesis using l by simp
qed

subsection \<open>The size limit\<close>

text \<open>
  What \<^verbatim>\<open>write_packet\<close> does, by the number \<open>N\<close> of bytes of the serialised payload. Up
  to 65531 bytes the frame is written. Above that and below \<open>2 ^ 31\<close> the size check
  raises \<^verbatim>\<open>ValueError\<close> and the stream is as it was before the call. From \<open>2 ^ 31\<close> on
  \<^verbatim>\<open>struct.pack\<close>, which runs before the size check, raises \<^verbatim>\<open>struct.error\<close>.
\<close>

lemma write_packet_by_size:
  assumes "length (dumps render data) = N"
  shows "(N \<le> 65531 \<longrightarrow>
            (\<exists>frame. write_packet render data s = (Inr (), s\<lparr>written := written s @ [frame]\<rparr>)))
       \<and> (65531 < N \<and> N \<le> 2147483647 \<longrightarrow> write_packet render data s = (Inl ValueError, s))
       \<and> (2147483647 < N \<longrightarrow> write_packet render data s = (Inl StructError, s))"
  using assms write_packet_ok [of render data s] write_packet_too_big [of render data s]
    write_packet_huge [of render data s]
  by auto

text \<open>
  Claim C4 says that for every payload whose frame would exceed 65535 bytes
  \<^verbatim>\<open>write_packet\<close> fails with the error of its size check, before anything is written.
  The code does not do so for the payload \<^verbatim>\<open>{"a": "aa...a"}\<close> whose text has \<open>2 ^ 31\<close>
  bytes: the frame would exceed 65535 bytes, nothing is written, but the exception is
  \<^verbatim>\<open>struct.error\<close>, raised by \<^verbatim>\<open>struct.pack(">i", len(data))\<close> before the size check is
  reached, and not the \<^verbatim>\<open>ValueError\<close> of the check.
\<close>

theorem write_packet_misses_size_check:
  "4 + length (dumps long_render (long_payload 2147483639)) > 65535
   \<and> write_packet long_render (long_payload 2147483639) \<lparr>incoming = [], written = []\<rparr>
       = (Inl StructError, \<lparr>incoming = [], written = []\<rparr>)"
proof -
  have c: "2147483647 < length (dumps long_render (long_payload 2147483639))"
    by (simp add: length_long_payload)
  from write_packet_huge [OF c] show ?thesis by (simp add: length_long_payload)
qed

section \<open>Encoding and decoding\<close>

lemma to_json_set:
  "default_hook (PSet xs) = Inr d \<Longrightarrow> to_json (PSet xs) = to_json d"
  by auto

lemma loads_dumps:
  "parse (render (to_json p)) = Inr (to_json p) \<Longrightarrow>
   loads set_iter parse (dumps render p) = of_json set_iter (to_json p)"
  by (simp add: loads_def dumps_def)







lemma py_eq_hashable: "hashable x \<Longrightarrow> py_eq x x"
  by (cases x) simp_all






subsection \<open>The round trip\<close>




subsection \<open>Reading a frame\<close>

text \<open>
  Claim C5 does not hold of the code. \<^verbatim>\<open>read_packet\<close> calls \<^verbatim>\<open>reader.read(length)\<close>,
  which returns the bytes that are there, at most \<open>length\<close> of them. Here the prefix
  announces 3 bytes, the bytes \<^verbatim>\<open>12\<close> arrive and the stream ends: \<^verbatim>\<open>read_packet\<close> raises
  nothing and returns the number 12, decoded from the 2 bytes.
\<close>

theorem read_packet_decodes_truncated_frame:
  "read_packet sample_iter sample_parse \<lparr>incoming = [[0, 0, 0, 3, 49, 50]], written = []\<rparr>
     = (Inr (PInt 12), \<lparr>incoming = [], written = []\<rparr>)"
  by (simp add: read_packet_def reader_read_def LENGTH_LENGTH_def struct_unpack_i_def
      loads_def sample_parse_def sample_texts_def)

subsection \<open>digits\<close>

lemma digit_inj: "a < 10 \<Longrightarrow> b < 10 \<Longrightarrow> digit a = digit b \<Longrightarrow> a = b"
proof -
  assume ab: "a < 10" "b < 10" and eq: "digit a = digit b"
  have "distinct ''0123456789''" by simp
  moreover have "a < length ''0123456789''" "b < length ''0123456789''" using ab by simp_all
  ultimately show "a = b" using eq unfolding digit_def by (simp only: nth_eq_iff_index_eq)
qed

lemma str_nat_small: "n < 10 \<Longrightarrow> str_nat n = [digit n]"
  by (subst str_nat.simps) simp

lemma str_nat_large: "\<not> n < 10 \<Longrightarrow> str_nat n = str_nat (n div 10) @ [digit (n mod 10)]"
  by (subst str_nat.simps) simp

lemma str_nat_not_Nil: "str_nat n \<noteq> []"
proof (cases "n < 10")
  case True
  from str_nat_small [OF True] show ?thesis by simp
next
  case False
  from str_nat_large [OF False] show ?thesis by simp
qed

lemma str_nat_length: "\<not> n < 10 \<Longrightarrow> 2 \<le> length (str_nat n)"
proof -
  assume n: "\<not> n < 10"
  have "0 < length (str_nat (n div 10))"
    using str_nat_not_Nil [of "n div 10"] by simp
  moreover have "length (str_nat n) = length (str_nat (n div 10)) + 1"
    by (simp only: str_nat_large [OF n] length_append list.size)
  ultimately show ?thesis by linarith
qed

lemma str_nat_inj: "str_nat m = str_nat n \<Longrightarrow> m = n"
proof (induction m arbitrary: n rule: str_nat.induct)
  case (1 m)
  show ?case
  proof (cases "m < 10")
    case True
    note m = str_nat_small [OF True]
    show ?thesis
    proof (cases "n < 10")
      case n: True
      with m "1.prems" True show ?thesis by (auto simp: str_nat_small dest: digit_inj)
    next
      case False
      then have "2 \<le> length (str_nat n)" by (rule str_nat_length)
      with m "1.prems" show ?thesis by simp
    qed
  next
    case False
    note m = str_nat_large [OF False]
    show ?thesis
    proof (cases "n < 10")
      case True
      from False have "2 \<le> length (str_nat m)" by (rule str_nat_length)
      with True "1.prems" show ?thesis by (simp add: str_nat_small)
    next
      case n: False
      with m "1.prems" have eq: "str_nat (m div 10) = str_nat (n div 10)"
        and d: "digit (m mod 10) = digit (n mod 10)" by (simp_all add: str_nat_large)
      from "1.IH" [OF False eq] have q: "m div 10 = n div 10" .
      have r: "m mod 10 = n mod 10"
        by (rule digit_inj [OF _ _ d]) simp_all
      have "m = m div 10 * 10 + m mod 10" by simp
      also have "\<dots> = n div 10 * 10 + n mod 10" by (simp only: q r)
      also have "\<dots> = n" by simp
      finally show ?thesis .
    qed
  qed
qed

section \<open>The client\<close>

subsection \<open>What the steps do to the table and the counter\<close>

lemma find_key_Some: "find_key d pid = Inr (Some k) \<Longrightarrow> pid = PStr k \<and> d k \<noteq> None"
  by (auto simp: find_key_def split: if_splits pyval.splits)

lemma find_key_None: "find_key d pid = Inr None \<Longrightarrow> pid = PStr k \<Longrightarrow> d k = None"
  by (auto simp: find_key_def split: if_splits)

lemma find_key_unmatched:
  "hashable pid \<Longrightarrow> (\<And>k. pid = PStr k \<Longrightarrow> d k = None) \<Longrightarrow> find_key d pid = Inr None"
  by (cases pid) (auto simp: find_key_def)

lemma read_packets_iter_current_id [simp]:
  "current_id (read_packets_iter set_iter parse c) = current_id c"
  by (simp add: read_packets_iter_def Let_def split: prod.splits sum.splits option.splits)


lemma read_packets_iter_slot:
  assumes "expected_packets (read_packets_iter set_iter parse c) k = Some (True, v)"
  shows "expected_packets c k = Some (True, v) \<or> getattr v ''id'' = Inr (PStr k)"
  using assms
  by (auto simp: read_packets_iter_def Let_def dest!: find_key_Some
      split: prod.splits sum.splits option.splits if_splits)

lemma send_fields:
  "send render packet c = (r, c') \<Longrightarrow>
   expected_packets c' = expected_packets c \<and> current_id c' = current_id c"
  by (auto simp: send_def split: prod.splits)

lemma request_start_current_id:
  "current_id (fst (snd (request_start render packet c))) =
     (case setitem packet ''id'' (PStr (''c'' @ str_nat (current_id c))) of
        Inl e \<Rightarrow> current_id c | Inr p \<Rightarrow> Suc (current_id c))"
proof (cases "setitem packet ''id'' (PStr (''c'' @ str_nat (current_id c)))")
  case (Inl e)
  then show ?thesis by (simp add: request_start_def)
next
  case (Inr p)
  show ?thesis
    by (auto simp: request_start_def Inr Let_def dest!: send_fields split: prod.splits sum.splits)
qed

lemma request_start_expected:
  "expected_packets (fst (snd (request_start render packet c))) =
     (case setitem packet ''id'' (PStr (''c'' @ str_nat (current_id c))) of
        Inl e \<Rightarrow> expected_packets c
      | Inr p \<Rightarrow> (expected_packets c)(''c'' @ str_nat (current_id c) \<mapsto> (False, PNone)))"
proof (cases "setitem packet ''id'' (PStr (''c'' @ str_nat (current_id c)))")
  case (Inl e)
  then show ?thesis by (simp add: request_start_def)
next
  case (Inr p)
  show ?thesis
    by (auto simp: request_start_def Inr Let_def dest!: send_fields split: prod.splits sum.splits)
qed

lemma request_start_result:
  "snd (snd (request_start render packet c)) = Inr k \<Longrightarrow> k = ''c'' @ str_nat (current_id c)"
  by (auto simp: request_start_def Let_def split: prod.splits sum.splits)

lemma request_finish_Some:
  "request_finish k c = Some v \<longleftrightarrow> expected_packets c k = Some (True, v)"
  by (auto simp: request_finish_def split: option.splits bool.splits)

subsection \<open>One step\<close>


lemma client_step_slot:
  assumes "expected_packets (fst (client_step render set_iter parse c ev)) k = Some (True, v)"
  shows "expected_packets c k = Some (True, v) \<or> getattr v ''id'' = Inr (PStr k)"
proof (cases ev)
  case (Request packet)
  with assms show ?thesis
    using request_start_expected [of render packet c]
    by (auto simp: client_step_def split: prod.splits sum.splits if_splits)
next
  case ReadPacket
  with assms show ?thesis
    by (auto simp: client_step_def dest: read_packets_iter_slot split: if_splits)
next
  case (Resume k')
  with assms show ?thesis
    by (simp add: client_step_def split: option.splits)
qed

lemma client_step_current_id:
  "current_id c \<le> current_id (fst (client_step render set_iter parse c ev))"
proof (cases ev)
  case (Request packet)
  then show ?thesis
    using request_start_current_id [of render packet c]
    by (auto simp: client_step_def split: prod.splits sum.splits)
next
  case ReadPacket
  then show ?thesis by (simp add: client_step_def)
next
  case (Resume k')
  then show ?thesis by (simp add: client_step_def split: option.splits)
qed

lemma client_step_Waiting:
  assumes "snd (client_step render set_iter parse c ev) = Waiting k p"
  shows "k = ''c'' @ str_nat (current_id c)
       \<and> current_id (fst (client_step render set_iter parse c ev)) = Suc (current_id c)"
proof (cases ev)
  case (Request packet)
  with assms show ?thesis
    using request_start_current_id [of render packet c]
    by (auto simp: client_step_def request_start_def Let_def split: prod.splits sum.splits)
next
  case ReadPacket
  with assms show ?thesis by (simp add: client_step_def split: if_splits)
next
  case (Resume k')
  with assms show ?thesis by (simp add: client_step_def split: option.splits)
qed

lemma client_step_Returned:
  "snd (client_step render set_iter parse c ev) = Returned k v \<Longrightarrow>
   expected_packets c k = Some (True, v) \<and> fst (client_step render set_iter parse c ev) = c"
  by (cases ev)
    (auto simp: client_step_def request_finish_Some split: prod.splits sum.splits if_splits option.splits)

subsection \<open>Runs\<close>

lemma client_run_Cons:
  "client_run render set_iter parse c (ev # evs) =
     (fst (client_run render set_iter parse (fst (client_step render set_iter parse c ev)) evs),
      snd (client_step render set_iter parse c ev)
        # snd (client_run render set_iter parse (fst (client_step render set_iter parse c ev)) evs))"
  by (simp add: split_def Let_def)



lemma client_run_Returned_id:
  assumes "\<And>k v. expected_packets c k = Some (True, v) \<Longrightarrow> getattr v ''id'' = Inr (PStr k)"
    and "Returned k v \<in> set (snd (client_run render set_iter parse c evs))"
  shows "getattr v ''id'' = Inr (PStr k)"
  using assms
proof (induction evs arbitrary: c)
  case Nil
  then show ?case by simp
next
  case (Cons ev evs)
  let ?c1 = "fst (client_step render set_iter parse c ev)"
  have inv: "getattr v' ''id'' = Inr (PStr k')"
    if "expected_packets ?c1 k' = Some (True, v')" for k' v'
    using client_step_slot [OF that] Cons.prems(1) by blast
  from Cons.prems(2) consider
    "snd (client_step render set_iter parse c ev) = Returned k v"
    | "Returned k v \<in> set (snd (client_run render set_iter parse ?c1 evs))"
    by (auto simp only: client_run_Cons snd_conv set_simps)
  then show ?case
  proof cases
    case 1
    then have "expected_packets c k = Some (True, v)"
      by (auto dest: client_step_Returned)
    then show ?thesis by (rule Cons.prems(1))
  next
    case 2
    from Cons.IH [of ?c1, OF inv 2] show ?thesis .
  qed
qed

lemma client_run_assigned:
  "k \<in> set (assigned (snd (client_run render set_iter parse c evs))) \<Longrightarrow>
   \<exists>n \<ge> current_id c. k = ''c'' @ str_nat n"
proof (induction evs arbitrary: c)
  case Nil
  then show ?case by simp
next
  case (Cons ev evs)
  let ?c1 = "fst (client_step render set_iter parse c ev)"
  let ?ob = "snd (client_step render set_iter parse c ev)"
  let ?obs = "snd (client_run render set_iter parse ?c1 evs)"
  have le: "current_id c \<le> current_id ?c1" by (rule client_step_current_id)
  from Cons.prems have "k \<in> set (assigned (?ob # ?obs))"
    by (simp only: client_run_Cons snd_conv)
  then consider (head) p where "?ob = Waiting k p" | (tail) "k \<in> set (assigned ?obs)"
    by (cases ?ob) auto
  then show ?case
  proof cases
    case head
    then have "k = ''c'' @ str_nat (current_id c)" by (auto dest: client_step_Waiting)
    then show ?thesis by blast
  next
    case tail
    from Cons.IH [OF tail] obtain n where "current_id ?c1 \<le> n" "k = ''c'' @ str_nat n" by blast
    with le show ?thesis by (intro exI [of _ n]) simp
  qed
qed

lemma client_run_distinct: "distinct (assigned (snd (client_run render set_iter parse c evs)))"
proof (induction evs arbitrary: c)
  case Nil
  then show ?case by simp
next
  case (Cons ev evs)
  let ?c1 = "fst (client_step render set_iter parse c ev)"
  let ?ob = "snd (client_step render set_iter parse c ev)"
  let ?obs = "snd (client_run render set_iter parse ?c1 evs)"
  have run: "snd (client_run render set_iter parse c (ev # evs)) = ?ob # ?obs"
    by (simp only: client_run_Cons snd_conv)
  have IH: "distinct (assigned ?obs)" by (rule Cons.IH)
  show ?case
  proof (cases "\<exists>k p. ?ob = Waiting k p")
    case True
    then obtain k p where ob: "?ob = Waiting k p" by blast
    then have k: "k = ''c'' @ str_nat (current_id c)" and c1: "current_id ?c1 = Suc (current_id c)"
      by (auto dest: client_step_Waiting)
    have "k \<notin> set (assigned ?obs)"
    proof
      assume "k \<in> set (assigned ?obs)"
      from client_run_assigned [OF this] obtain n
        where n: "current_id ?c1 \<le> n" "k = ''c'' @ str_nat n" by blast
      from n(2) k have "str_nat n = str_nat (current_id c)" by simp
      then have "n = current_id c" by (rule str_nat_inj)
      with n(1) c1 show False by simp
    qed
    with IH show ?thesis unfolding run ob by simp
  next
    case False
    then have "assigned (?ob # ?obs) = assigned ?obs" by (cases ?ob) auto
    with IH show ?thesis by (simp only: run)
  qed
qed

lemma client_init_slots:
  "expected_packets (client_init input) k = Some (True, v) \<Longrightarrow> getattr v ''id'' = Inr (PStr k)"
  by (simp add: client_init_def)

lemma read_packets_iter_delivers:
  assumes "read_packet set_iter parse (stream c) = (Inr packet, s')"
    and "getattr packet ''id'' = Inr (PStr k)"
    and "expected_packets c k \<noteq> None"
  shows "request_finish k (read_packets_iter set_iter parse c) = Some packet
       \<and> broadcasts (read_packets_iter set_iter parse c) = broadcasts c"
  using assms
  by (auto simp: read_packets_iter_def request_finish_def find_key_def)

lemma read_packets_iter_broadcasts:
  assumes "read_packet set_iter parse (stream c) = (Inr packet, s')"
    and "getattr packet ''id'' = Inr pid"
    and "hashable pid"
    and "\<And>k. pid = PStr k \<Longrightarrow> expected_packets c k = None"
  shows "broadcasts (read_packets_iter set_iter parse c) = broadcasts c @ [packet]
       \<and> expected_packets (read_packets_iter set_iter parse c) = expected_packets c
       \<and> read_task (read_packets_iter set_iter parse c) = read_task c"
proof -
  have "find_key (expected_packets c) pid = Inr None"
    using assms(3,4) by (rule find_key_unmatched)
  with assms(1,2) show ?thesis
    by (simp add: read_packets_iter_def)
qed

lemma digit_0: "digit 0 = CHR ''0''"
  by (simp add: digit_def)

lemma digit_Suc_0: "digit (Suc 0) = CHR ''1''"
  by (simp add: digit_def)

lemma str_nat_0: "str_nat 0 = ''0''"
  using str_nat_small [of 0] by (simp add: digit_0)

lemma str_nat_Suc_0: "str_nat (Suc 0) = ''1''"
  using str_nat_small [of "Suc 0"] by (simp add: digit_Suc_0)

lemmas sample_eval =
  sample_frame_def sample_render_def sample_parse_def sample_texts_def
  struct_pack_i_def struct_unpack_i_def LENGTH_LENGTH_def
  read_packet_def reader_read_def loads_def special_obj_hook_def dict_of_pairs_def
  write_packet_def dumps_def writer_write_def writer_drain_def

lemmas client_eval =
  client_init_def client_step_def request_start_def send_def read_packets_iter_def
  request_finish_def find_key_def str_nat_0 str_nat_Suc_0 Let_def

subsection \<open>Responses are matched by id\<close>

text \<open>
  Claim C1. In every run of a client, whatever the order in which requests are issued,
  packets arrive and calls are resumed: the ids on which the calls of \<^verbatim>\<open>request\<close> wait
  are pairwise different, and a call that waits on the id \<open>k\<close> returns only a packet
  whose \<^verbatim>\<open>id\<close> field is \<open>k\<close>, so never a response that bears the id of another call.
  Moreover, when the read task reads a packet whose \<^verbatim>\<open>id\<close> is \<open>k\<close> while the table has
  an entry for \<open>k\<close>, the call waiting on \<open>k\<close> can go on and returns exactly this packet.
\<close>

theorem request_returns_response_with_own_id:
  assumes "client_run render set_iter parse (client_init input) evs = (c, obs)"
  shows "distinct (assigned obs)
       \<and> (\<forall>k v. Returned k v \<in> set obs \<longrightarrow> getattr v ''id'' = Inr (PStr k))
       \<and> (\<forall>packet s' k. read_packet set_iter parse (stream c) = (Inr packet, s')
              \<and> getattr packet ''id'' = Inr (PStr k) \<and> expected_packets c k \<noteq> None
            \<longrightarrow> request_finish k (read_packets_iter set_iter parse c) = Some packet)"
proof (intro conjI allI impI)
  have obs: "obs = snd (client_run render set_iter parse (client_init input) evs)"
    by (simp add: assms)
  show "distinct (assigned obs)"
    unfolding obs by (rule client_run_distinct)
  show "getattr v ''id'' = Inr (PStr k)" if "Returned k v \<in> set obs" for k v
    using client_init_slots that unfolding obs by (rule client_run_Returned_id)
  show "request_finish k (read_packets_iter set_iter parse c) = Some packet"
    if "read_packet set_iter parse (stream c) = (Inr packet, s')
        \<and> getattr packet ''id'' = Inr (PStr k) \<and> expected_packets c k \<noteq> None"
    for packet s' k
    using that read_packets_iter_delivers [of set_iter parse c packet s' k] by blast
qed

text \<open>
  Two requests get the ids \<^verbatim>\<open>c0\<close> and \<^verbatim>\<open>c1\<close>; the response to \<^verbatim>\<open>c1\<close> arrives first,
  then the response to \<^verbatim>\<open>c0\<close>; each call returns the response with its own id.
\<close>

theorem request_returns_response_with_own_id_witness:
  "snd (client_run sample_render sample_iter sample_parse
       (client_init [sample_frame (JObj [(''id'', JStr ''c1'')]),
                     sample_frame (JObj [(''id'', JStr ''c0'')])])
       [Request (PDict [(''type'', PStr ''eval''), (''code'', PStr ''1'')]),
        Request (PDict [(''type'', PStr ''eval''), (''code'', PStr ''2'')]),
        ReadPacket, ReadPacket, Resume ''c0'', Resume ''c1'']) =
   [Waiting ''c0'' (PDict [(''type'', PStr ''eval''), (''code'', PStr ''1''), (''id'', PStr ''c0'')]),
    Waiting ''c1'' (PDict [(''type'', PStr ''eval''), (''code'', PStr ''2''), (''id'', PStr ''c1'')]),
    Idle, Idle,
    Returned ''c0'' (PDict [(''id'', PStr ''c0'')]),
    Returned ''c1'' (PDict [(''id'', PStr ''c1'')])]
   \<and> distinct [''c0'', ''c1'']
   \<and> getattr (PDict [(''id'', PStr ''c0'')]) ''id'' = Inr (PStr ''c0'')
   \<and> getattr (PDict [(''id'', PStr ''c1'')]) ''id'' = Inr (PStr ''c1'')"
proof -
  let ?c0 = "client_init [sample_frame (JObj [(''id'', JStr ''c1'')]),
                          sample_frame (JObj [(''id'', JStr ''c0'')])]"
  let ?evs = "[Request (PDict [(''type'', PStr ''eval''), (''code'', PStr ''1'')]),
               Request (PDict [(''type'', PStr ''eval''), (''code'', PStr ''2'')]),
               ReadPacket, ReadPacket, Resume ''c0'', Resume ''c1'']"
  let ?run = "client_run sample_render sample_iter sample_parse ?c0 ?evs"
  have run: "?run = (fst ?run, snd ?run)" by (rule surjective_pairing)
  have obs: "snd ?run =
    [Waiting ''c0'' (PDict [(''type'', PStr ''eval''), (''code'', PStr ''1''), (''id'', PStr ''c0'')]),
     Waiting ''c1'' (PDict [(''type'', PStr ''eval''), (''code'', PStr ''2''), (''id'', PStr ''c1'')]),
     Idle, Idle,
     Returned ''c0'' (PDict [(''id'', PStr ''c0'')]),
     Returned ''c1'' (PDict [(''id'', PStr ''c1'')])]"
    by (simp add: sample_eval client_eval)
  from request_returns_response_with_own_id [OF run]
  have "distinct (assigned (snd ?run))"
    and "\<forall>k v. Returned k v \<in> set (snd ?run) \<longrightarrow> getattr v ''id'' = Inr (PStr k)"
    by blast+
  then show ?thesis unfolding obs by simp
qed

subsection \<open>The entries of the table stay\<close>




subsection \<open>Packets that match no entry\<close>

text \<open>
  Claim C7, amended. When the read task reads a packet that carries an \<^verbatim>\<open>id\<close> field
  whose value is hashable and is not a key of \<open>expected_packets\<close>, exactly one
  \<^verbatim>\<open>handle_broadcast\<close> task is created for the packet, no entry of the table changes, so
  no waiting call is resumed by it, and the read task goes on. The keys of
  \<open>expected_packets\<close> are the ids of all the requests made so far, also of those that
  have returned, since no entry is ever removed: a packet whose \<^verbatim>\<open>id\<close> is such a key is
  stored in the entry under that key, and no \<^verbatim>\<open>handle_broadcast\<close> task is created for it.
\<close>

theorem unmatched_packet_goes_to_broadcast_handler:
  assumes "read_packet set_iter parse (stream c) = (Inr packet, s')"
    and "getattr packet ''id'' = Inr pid"
    and "hashable pid"
  shows "((\<forall>k. pid = PStr k \<longrightarrow> expected_packets c k = None) \<longrightarrow>
            broadcasts (read_packets_iter set_iter parse c) = broadcasts c @ [packet]
          \<and> expected_packets (read_packets_iter set_iter parse c) = expected_packets c
          \<and> read_task (read_packets_iter set_iter parse c) = read_task c)
       \<and> (\<forall>k. pid = PStr k \<and> expected_packets c k \<noteq> None \<longrightarrow>
            broadcasts (read_packets_iter set_iter parse c) = broadcasts c
          \<and> expected_packets (read_packets_iter set_iter parse c)
              = (expected_packets c)(k \<mapsto> (True, packet))
          \<and> read_task (read_packets_iter set_iter parse c) = read_task c)"
proof (intro conjI allI impI)
  assume "\<forall>k. pid = PStr k \<longrightarrow> expected_packets c k = None"
  then show "broadcasts (read_packets_iter set_iter parse c) = broadcasts c @ [packet]"
    and "expected_packets (read_packets_iter set_iter parse c) = expected_packets c"
    and "read_task (read_packets_iter set_iter parse c) = read_task c"
    using assms read_packets_iter_broadcasts [of set_iter parse c packet s' pid] by blast+
next
  fix k
  assume "pid = PStr k \<and> expected_packets c k \<noteq> None"
  then have "find_key (expected_packets c) pid = Inr (Some k)"
    by (auto simp: find_key_def)
  with assms(1,2)
  show "broadcasts (read_packets_iter set_iter parse c) = broadcasts c"
    and "expected_packets (read_packets_iter set_iter parse c)
           = (expected_packets c)(k \<mapsto> (True, packet))"
    and "read_task (read_packets_iter set_iter parse c) = read_task c"
    by (simp_all add: read_packets_iter_def)
qed

text \<open>
  A client has made two requests: the call waiting on \<^verbatim>\<open>c0\<close> has returned its response,
  the call waiting on \<^verbatim>\<open>c1\<close> still waits. The packet \<^verbatim>\<open>{"type": "broadcast", "id": "b0"}\<close>
  arrives: it goes to the broadcast handler and the table stays as it is. Then a second
  packet with the id \<^verbatim>\<open>c0\<close> arrives: it is stored under \<^verbatim>\<open>c0\<close> and not broadcast.
\<close>

theorem unmatched_packet_goes_to_broadcast_handler_witness:
  "read_packet sample_iter sample_parse
     (stream (fst (client_run sample_render sample_iter sample_parse
        (client_init [sample_frame (JObj [(''id'', JStr ''c0'')]),
                      sample_frame (JObj [(''type'', JStr ''broadcast''), (''id'', JStr ''b0'')]),
                      sample_frame (JObj [(''id'', JStr ''c0'')])])
        [Request (PDict [(''type'', PStr ''eval''), (''code'', PStr ''1'')]),
         ReadPacket, Resume ''c0'',
         Request (PDict [(''type'', PStr ''eval''), (''code'', PStr ''2'')])])))
     = (Inr (PDict [(''type'', PStr ''broadcast''), (''id'', PStr ''b0'')]),
        \<lparr>incoming = [sample_frame (JObj [(''id'', JStr ''c0'')])],
         written = [sample_frame (JObj [(''type'', JStr ''eval''), (''code'', JStr ''1''), (''id'', JStr ''c0'')]),
                    sample_frame (JObj [(''type'', JStr ''eval''), (''code'', JStr ''2''), (''id'', JStr ''c1'')])]\<rparr>)
   \<and> expected_packets (fst (client_run sample_render sample_iter sample_parse
        (client_init [sample_frame (JObj [(''id'', JStr ''c0'')]),
                      sample_frame (JObj [(''type'', JStr ''broadcast''), (''id'', JStr ''b0'')]),
                      sample_frame (JObj [(''id'', JStr ''c0'')])])
        [Request (PDict [(''type'', PStr ''eval''), (''code'', PStr ''1'')]),
         ReadPacket, Resume ''c0'',
         Request (PDict [(''type'', PStr ''eval''), (''code'', PStr ''2'')])])) ''c1''
     = Some (False, PNone)
   \<and> broadcasts (read_packets_iter sample_iter sample_parse
       (fst (client_run sample_render sample_iter sample_parse
        (client_init [sample_frame (JObj [(''id'', JStr ''c0'')]),
                      sample_frame (JObj [(''type'', JStr ''broadcast''), (''id'', JStr ''b0'')]),
                      sample_frame (JObj [(''id'', JStr ''c0'')])])
        [Request (PDict [(''type'', PStr ''eval''), (''code'', PStr ''1'')]),
         ReadPacket, Resume ''c0'',
         Request (PDict [(''type'', PStr ''eval''), (''code'', PStr ''2'')])])))
     = [PDict [(''type'', PStr ''broadcast''), (''id'', PStr ''b0'')]]
   \<and> expected_packets (read_packets_iter sample_iter sample_parse
       (fst (client_run sample_render sample_iter sample_parse
        (client_init [sample_frame (JObj [(''id'', JStr ''c0'')]),
                      sample_frame (JObj [(''type'', JStr ''broadcast''), (''id'', JStr ''b0'')]),
                      sample_frame (JObj [(''id'', JStr ''c0'')])])
        [Request (PDict [(''type'', PStr ''eval''), (''code'', PStr ''1'')]),
         ReadPacket, Resume ''c0'',
         Request (PDict [(''type'', PStr ''eval''), (''code'', PStr ''2'')])]))) ''c1''
     = Some (False, PNone)
   \<and> broadcasts (read_packets_iter sample_iter sample_parse
       (read_packets_iter sample_iter sample_parse
       (fst (client_run sample_render sample_iter sample_parse
        (client_init [sample_frame (JObj [(''id'', JStr ''c0'')]),
                      sample_frame (JObj [(''type'', JStr ''broadcast''), (''id'', JStr ''b0'')]),
                      sample_frame (JObj [(''id'', JStr ''c0'')])])
        [Request (PDict [(''type'', PStr ''eval''), (''code'', PStr ''1'')]),
         ReadPacket, Resume ''c0'',
         Request (PDict [(''type'', PStr ''eval''), (''code'', PStr ''2'')])]))))
     = [PDict [(''type'', PStr ''broadcast''), (''id'', PStr ''b0'')]]"
proof -
  let ?c = "fst (client_run sample_render sample_iter sample_parse
        (client_init [sample_frame (JObj [(''id'', JStr ''c0'')]),
                      sample_frame (JObj [(''type'', JStr ''broadcast''), (''id'', JStr ''b0'')]),
                      sample_frame (JObj [(''id'', JStr ''c0'')])])
        [Request (PDict [(''type'', PStr ''eval''), (''code'', PStr ''1'')]),
         ReadPacket, Resume ''c0'',
         Request (PDict [(''type'', PStr ''eval''), (''code'', PStr ''2'')])])"
  let ?c' = "read_packets_iter sample_iter sample_parse ?c"
  let ?b = "PDict [(''type'', PStr ''broadcast''), (''id'', PStr ''b0'')]"
  let ?r = "PDict [(''id'', PStr ''c0'')]"
  let ?out = "[sample_frame (JObj [(''type'', JStr ''eval''), (''code'', JStr ''1''), (''id'', JStr ''c0'')]),
               sample_frame (JObj [(''type'', JStr ''eval''), (''code'', JStr ''2''), (''id'', JStr ''c1'')])]"
  have 1: "read_packet sample_iter sample_parse (stream ?c)
             = (Inr ?b, \<lparr>incoming = [sample_frame (JObj [(''id'', JStr ''c0'')])], written = ?out\<rparr>)"
    by (simp add: sample_eval client_eval)
  have 2: "getattr ?b ''id'' = Inr (PStr ''b0'')" by simp
  have 3: "hashable (PStr ''b0'')" by simp
  have 4: "\<forall>k. PStr ''b0'' = PStr k \<longrightarrow> expected_packets ?c k = None"
    by (simp add: sample_eval client_eval)
  have p: "expected_packets ?c ''c1'' = Some (False, PNone)"
    by (simp add: sample_eval client_eval)
  note T = unmatched_packet_goes_to_broadcast_handler
  from T [OF 1 2 3] 4
  have b: "broadcasts ?c' = broadcasts ?c @ [?b]"
    and e: "expected_packets ?c' = expected_packets ?c" by blast+
  have b0: "broadcasts ?c = []" by (simp add: sample_eval client_eval)
  have 5: "read_packet sample_iter sample_parse (stream ?c')
             = (Inr ?r, \<lparr>incoming = [], written = ?out\<rparr>)"
    by (simp add: sample_eval client_eval)
  have 6: "getattr ?r ''id'' = Inr (PStr ''c0'')" by simp
  have 7: "hashable (PStr ''c0'')" by simp
  have 8: "expected_packets ?c' ''c0'' \<noteq> None"
    unfolding e by (simp add: sample_eval client_eval)
  from T [OF 5 6 7] 8
  have "broadcasts (read_packets_iter sample_iter sample_parse ?c') = broadcasts ?c'" by blast
  with b b0 e p 1 show ?thesis by simp
qed

text \<open>
  The claim as it was stated fails in two ways. A packet without an \<^verbatim>\<open>id\<close> field, here
  \<^verbatim>\<open>{"type": "exec-response", "response": "None"}\<close>, is not broadcast: reading
  \<^verbatim>\<open>packet.id\<close> raises \<^verbatim>\<open>KeyError\<close>, the read task ends, and no \<^verbatim>\<open>handle_broadcast\<close> task
  is created. And a packet with the id of a request that has returned is not broadcast
  either: the call waiting on \<^verbatim>\<open>c0\<close> has returned, a second packet with the id \<^verbatim>\<open>c0\<close>
  arrives, and no \<^verbatim>\<open>handle_broadcast\<close> task is created for it.
\<close>

theorem unmatched_packet_goes_to_broadcast_handler_counterexample:
  "read_task (read_packets_iter sample_iter sample_parse
     (client_init [sample_frame
        (JObj [(''type'', JStr ''exec-response''), (''response'', JStr ''None'')])]))
     = Failed KeyError
   \<and> broadcasts (read_packets_iter sample_iter sample_parse
     (client_init [sample_frame
        (JObj [(''type'', JStr ''exec-response''), (''response'', JStr ''None'')])])) = []
   \<and> snd (client_run sample_render sample_iter sample_parse
       (client_init [sample_frame (JObj [(''id'', JStr ''c0'')]),
                     sample_frame (JObj [(''id'', JStr ''c0'')])])
       [Request (PDict [(''type'', PStr ''eval''), (''code'', PStr ''1'')]),
        ReadPacket, Resume ''c0'']) =
     [Waiting ''c0'' (PDict [(''type'', PStr ''eval''), (''code'', PStr ''1''), (''id'', PStr ''c0'')]),
      Idle, Returned ''c0'' (PDict [(''id'', PStr ''c0'')])]
   \<and> broadcasts (read_packets_iter sample_iter sample_parse
       (fst (client_run sample_render sample_iter sample_parse
         (client_init [sample_frame (JObj [(''id'', JStr ''c0'')]),
                       sample_frame (JObj [(''id'', JStr ''c0'')])])
         [Request (PDict [(''type'', PStr ''eval''), (''code'', PStr ''1'')]),
          ReadPacket, Resume ''c0'']))) = []
   \<and> read_task (read_packets_iter sample_iter sample_parse
       (fst (client_run sample_render sample_iter sample_parse
         (client_init [sample_frame (JObj [(''id'', JStr ''c0'')]),
                       sample_frame (JObj [(''id'', JStr ''c0'')])])
         [Request (PDict [(''type'', PStr ''eval''), (''code'', PStr ''1'')]),
          ReadPacket, Resume ''c0'']))) = Running"
  by (simp add: sample_eval client_eval)

subsection \<open>The caller's packet\<close>

lemma map_of_dict_set: "map_of (dict_set kvs k v) = (map_of kvs)(k \<mapsto> v)"
  by (induction kvs) auto

text \<open>
  Claim C9. A call \<^verbatim>\<open>request(p)\<close> on a dictionary \<open>p\<close> changes the caller's dictionary:
  after the call, \<open>p\<close> has the key \<^verbatim>\<open>id\<close> bound to the new id, which is the letter
  \<^verbatim>\<open>c\<close> followed by the value that the counter had; the other keys of \<open>p\<close> are as they
  were, and the counter has been incremented.
\<close>

theorem request_sets_id_in_callers_packet:
  "getattr (fst (request_start render (PDict kvs) c)) ''id''
     = Inr (PStr (''c'' @ str_nat (current_id c)))
   \<and> (\<forall>name. name \<noteq> ''id'' \<longrightarrow>
         getattr (fst (request_start render (PDict kvs) c)) name = getattr (PDict kvs) name)
   \<and> current_id (fst (snd (request_start render (PDict kvs) c))) = Suc (current_id c)"
proof -
  have p: "fst (request_start render (PDict kvs) c)
             = PDict (dict_set kvs ''id'' (PStr (''c'' @ str_nat (current_id c))))"
    by (simp add: request_start_def Let_def split: prod.splits sum.splits)
  show ?thesis
    using request_start_current_id [of render "PDict kvs" c]
    by (simp add: p map_of_dict_set)
qed

theorem request_sets_id_in_callers_packet_witness:
  "fst (request_start sample_render (PDict [(''type'', PStr ''eval''), (''code'', PStr ''1'')])
         (client_init []))
     = PDict [(''type'', PStr ''eval''), (''code'', PStr ''1''), (''id'', PStr ''c0'')]
   \<and> ''type'' \<noteq> ''id''
   \<and> getattr (fst (request_start sample_render
         (PDict [(''type'', PStr ''eval''), (''code'', PStr ''1'')]) (client_init []))) ''type''
     = Inr (PStr ''eval'')"
proof -
  have "fst (request_start sample_render (PDict [(''type'', PStr ''eval''), (''code'', PStr ''1'')])
         (client_init []))
     = PDict [(''type'', PStr ''eval''), (''code'', PStr ''1''), (''id'', PStr ''c0'')]"
    by (simp add: sample_eval client_eval)
  moreover have "''type'' \<noteq> ''id''" by simp
  ultimately show ?thesis
    using request_sets_id_in_callers_packet
      [of sample_render "[(''type'', PStr ''eval''), (''code'', PStr ''1'')]" "client_init []"]
    by simp
qed

section \<open>The server\<close>

subsection \<open>One pass of the loop\<close>

lemma read_packet_written: "written (snd (read_packet set_iter parse st)) = written st"
  by (simp add: read_packet_def reader_read_def Let_def split: prod.splits sum.splits)

lemma set_conn_simps [simp]:
  "conns (set_conn i cn s) = (conns s)[i := cn]"
  "connections (set_conn i cn s) = connections s"
  "tasks (set_conn i cn s) = tasks s"
  "closing (set_conn i cn s) = closing s"
  "auth (set_conn i cn s) = auth s"
  "packet_handlers (set_conn i cn s) = packet_handlers s"
  by (simp_all add: set_conn_def)

lemma iter_length [simp]:
  "length (conns (handle_connection_iter render set_iter parse i s)) = length (conns s)"
  by (simp add: handle_connection_iter_def Let_def split: prod.splits sum.splits)

lemma iter_other:
  "j \<noteq> i \<Longrightarrow> conns (handle_connection_iter render set_iter parse i s) ! j = conns s ! j"
  by (simp add: handle_connection_iter_def Let_def split: prod.splits sum.splits)

lemma iter_closing [simp]:
  "closing (handle_connection_iter render set_iter parse i s) = closing s"
  by (simp add: handle_connection_iter_def Let_def split: prod.splits sum.splits)

lemma iter_auth [simp]:
  "auth (handle_connection_iter render set_iter parse i s) = auth s"
  by (simp add: handle_connection_iter_def Let_def split: prod.splits sum.splits)

lemma iter_connections:
  "connections (handle_connection_iter render set_iter parse i s) = connections s
   \<or> (connections (handle_connection_iter render set_iter parse i s) = remove1 i (connections s)
      \<and> reads_disconnect set_iter parse s i)"
  by (auto simp: handle_connection_iter_def reads_disconnect_def Let_def
      split: prod.splits sum.splits)

lemma iter_tasks:
  "tasks (handle_connection_iter render set_iter parse i s) = tasks s
   \<or> (\<exists>h packet. tasks (handle_connection_iter render set_iter parse i s) = tasks s @ [(h, i, packet)])"
  by (auto simp: handle_connection_iter_def Let_def split: prod.splits sum.splits)

subsection \<open>One event\<close>

lemma step_length: "length (conns s) \<le> length (conns (server_step render set_iter parse s ev))"
  by (cases ev) (simp_all add: server_step_def accept_def)

lemma step_stopped:
  assumes "i < length (conns s)" and "state (conns s ! i) \<noteq> Running"
  shows "conns (server_step render set_iter parse s ev) ! i = conns s ! i"
proof (cases ev)
  case (Accept input)
  with assms(1) show ?thesis by (simp add: server_step_def accept_def nth_append)
next
  case (Iterate j)
  show ?thesis
  proof (cases "j = i")
    case True
    with Iterate assms(2) show ?thesis by (simp add: server_step_def)
  next
    case False
    then have "conns (handle_connection_iter render set_iter parse j s) ! i = conns s ! i"
      by (simp add: iter_other)
    with Iterate show ?thesis by (simp add: server_step_def)
  qed
next
  case Close
  then show ?thesis by (simp add: server_step_def)
qed

lemma step_connections:
  assumes "i \<in> set (connections s)" and "i \<notin> set (connections (server_step render set_iter parse s ev))"
  shows "ev = Iterate i \<and> reads_disconnect set_iter parse s i"
proof (cases ev)
  case (Accept input)
  with assms show ?thesis by (simp add: server_step_def accept_def)
next
  case (Iterate j)
  with assms have run: "server_step render set_iter parse s ev = handle_connection_iter render set_iter parse j s"
    by (auto simp: server_step_def split: if_splits)
  from iter_connections [of render set_iter parse j s] assms run
  have rm: "connections (handle_connection_iter render set_iter parse j s) = remove1 j (connections s)"
    and rd: "reads_disconnect set_iter parse s j" by auto
  have "j = i"
  proof (rule ccontr)
    assume "j \<noteq> i"
    then have "i \<in> set (remove1 j (connections s))" using assms(1) by simp
    with assms(2) run rm show False by simp
  qed
  with Iterate rd show ?thesis by simp
next
  case Close
  with assms show ?thesis by (simp add: server_step_def)
qed

lemma step_tasks_of:
  assumes "state (conns s ! i) \<noteq> Running"
  shows "tasks_of i (server_step render set_iter parse s ev) = tasks_of i s"
proof (cases ev)
  case (Accept input)
  then show ?thesis by (simp add: server_step_def accept_def tasks_of_def)
next
  case (Iterate j)
  show ?thesis
  proof (cases "j < length (conns s) \<and> state (conns s ! j) = Running")
    case True
    with assms have "j \<noteq> i" by auto
    with iter_tasks [of render set_iter parse j s] True Iterate show ?thesis
      by (auto simp: server_step_def tasks_of_def)
  next
    case False
    with Iterate show ?thesis by (auto simp: server_step_def)
  qed
next
  case Close
  then show ?thesis by (simp add: server_step_def tasks_of_def)
qed

subsection \<open>Runs\<close>

lemma server_run_Cons:
  "server_run render set_iter parse s (ev # evs) =
     server_run render set_iter parse (server_step render set_iter parse s ev) evs"
  by (simp add: server_run_def)

lemma run_stopped:
  assumes "i < length (conns s)" and "state (conns s ! i) \<noteq> Running"
  shows "i < length (conns (server_run render set_iter parse s evs))
       \<and> conns (server_run render set_iter parse s evs) ! i = conns s ! i
       \<and> tasks_of i (server_run render set_iter parse s evs) = tasks_of i s
       \<and> (i \<in> set (connections s) \<longrightarrow> i \<in> set (connections (server_run render set_iter parse s evs)))"
  using assms
proof (induction evs arbitrary: s)
  case Nil
  then show ?case by (simp add: server_run_def)
next
  case (Cons ev evs)
  let ?s1 = "server_step render set_iter parse s ev"
  have len: "i < length (conns ?s1)"
    using Cons.prems(1) step_length [of s render set_iter parse ev] by simp
  have same: "conns ?s1 ! i = conns s ! i"
    using Cons.prems by (rule step_stopped)
  then have stopped: "state (conns ?s1 ! i) \<noteq> Running"
    using Cons.prems(2) by simp
  have t: "tasks_of i ?s1 = tasks_of i s"
    using Cons.prems(2) by (rule step_tasks_of)
  have c: "i \<in> set (connections ?s1)" if "i \<in> set (connections s)"
  proof (rule ccontr)
    assume "i \<notin> set (connections ?s1)"
    with that have "ev = Iterate i" by (auto dest: step_connections)
    with Cons.prems(2) have "?s1 = s" by (simp add: server_step_def)
    with that \<open>i \<notin> set (connections ?s1)\<close> show False by simp
  qed
  from Cons.IH [OF len stopped] same t c show ?case
    by (simp add: server_run_Cons)
qed

lemma failed_auth_stops:
  assumes "i < length (conns s)" and "state (conns s ! i) = Running"
    and "\<not> authed (conns s ! i)" and "\<not> closing s"
    and "fst (read_packet set_iter parse (conn_stream (conns s ! i))) = Inr packet"
    and "dict_get packet ''auth'' PNone \<noteq> Inr (PStr (auth s))"
  shows "state (conns (server_step render set_iter parse s (Iterate i)) ! i) \<noteq> Running"
  using assms
  by (auto simp: server_step_def handle_connection_iter_def Let_def
      split: prod.splits sum.splits)

lemma failed_auth_reply:
  assumes "i < length (conns s)" and "state (conns s ! i) = Running"
    and "\<not> authed (conns s ! i)" and "\<not> closing s"
    and "read_packet set_iter parse (conn_stream (conns s ! i)) = (Inr (PDict kvs), st)"
    and "map_of kvs ''auth'' \<noteq> Some (PStr (auth s))"
    and "map_of kvs ''id'' = Some pid"
    and "write_packet render (auth_response False pid) st = (Inr (), st')"
  shows "conns (server_step render set_iter parse s (Iterate i)) ! i
           = (conns s ! i)\<lparr>conn_stream := st', state := Done\<rparr>
       \<and> tasks (server_step render set_iter parse s (Iterate i)) = tasks s
       \<and> connections (server_step render set_iter parse s (Iterate i)) = connections s"
  using assms
  by (auto simp: server_step_def handle_connection_iter_def Let_def split: option.splits)

lemmas server_eval =
  server_run_def server_step_def server_init_def accept_def handle_connection_iter_def
  set_conn_def auth_response_def choose_handler_def reads_disconnect_def tasks_of_def Let_def

subsection \<open>The authentication gate\<close>

text \<open>
  Claim C3, amended. Let the first packet read on a connection be a dictionary that
  carries an \<^verbatim>\<open>id\<close> field, and no \<^verbatim>\<open>auth\<close> field or an \<^verbatim>\<open>auth\<close> value different from the
  configured secret, and let the frame of the reply fit the size limit. Then the pass of
  the loop that reads it writes one frame, the \<^verbatim>\<open>auth-response\<close> packet with
  \<^verbatim>\<open>success\<close> false and the \<^verbatim>\<open>id\<close> of the packet, and the task returns. Whatever
  happens afterwards, the stream of the connection stays as this pass left it, so nothing
  more is read from it, and no handler task is created for it.
\<close>

theorem failed_auth_gets_reply_and_ends_the_loop:
  assumes "i < length (conns s)" and "state (conns s ! i) = Running"
    and "\<not> authed (conns s ! i)" and "\<not> closing s"
    and "read_packet set_iter parse (conn_stream (conns s ! i)) = (Inr (PDict kvs), st)"
    and "map_of kvs ''auth'' \<noteq> Some (PStr (auth s))"
    and "map_of kvs ''id'' = Some pid"
    and "length (dumps render (auth_response False pid)) \<le> 65531"
  shows "\<exists>frame. length frame = 4 + length (dumps render (auth_response False pid))
           \<and> be_nat (take 4 frame) = length (dumps render (auth_response False pid))
           \<and> drop 4 frame = dumps render (auth_response False pid)
           \<and> (\<forall>evs. conn_stream (conns (server_run render set_iter parse s (Iterate i # evs)) ! i)
                        = st\<lparr>written := written st @ [frame]\<rparr>
                    \<and> state (conns (server_run render set_iter parse s (Iterate i # evs)) ! i) = Done
                    \<and> tasks_of i (server_run render set_iter parse s (Iterate i # evs)) = tasks_of i s)"
proof -
  let ?text = "dumps render (auth_response False pid)"
  let ?s1 = "server_step render set_iter parse s (Iterate i)"
  from write_packet_ok [OF assms(8), of st] obtain p where
    p: "length p = 4" "be_nat p = length ?text"
       "write_packet render (auth_response False pid) st
          = (Inr (), st\<lparr>written := written st @ [p @ ?text]\<rparr>)"
    by blast
  from failed_auth_reply [OF assms(1-7) p(3)]
  have c1: "conns ?s1 ! i
              = (conns s ! i)\<lparr>conn_stream := st\<lparr>written := written st @ [p @ ?text]\<rparr>,
                               state := Done\<rparr>"
    and t1: "tasks ?s1 = tasks s" by simp_all
  have len: "i < length (conns ?s1)"
    using assms(1) step_length [of s render set_iter parse "Iterate i"] by simp
  have stopped: "state (conns ?s1 ! i) \<noteq> Running" by (simp add: c1)
  have after: "conn_stream (conns (server_run render set_iter parse s (Iterate i # evs)) ! i)
                 = st\<lparr>written := written st @ [p @ ?text]\<rparr>
             \<and> state (conns (server_run render set_iter parse s (Iterate i # evs)) ! i) = Done
             \<and> tasks_of i (server_run render set_iter parse s (Iterate i # evs)) = tasks_of i s" for evs
    using run_stopped [OF len stopped, of render set_iter parse evs] c1 t1
    by (simp add: server_run_Cons tasks_of_def)
  show ?thesis
  proof (intro exI [of _ "p @ ?text"] conjI allI)
    show "length (p @ ?text) = 4 + length ?text" using p(1) by simp
    show "be_nat (take 4 (p @ ?text)) = length ?text" using p(1,2) by simp
    show "drop 4 (p @ ?text) = ?text" using p(1) by simp
  qed (simp_all add: after)
qed

text \<open>
  A connection sends an \<^verbatim>\<open>auth\<close> packet with the wrong secret and then an \<^verbatim>\<open>eval\<close>
  packet. The first pass writes the reply; the later passes leave the \<^verbatim>\<open>eval\<close> packet
  unread.
\<close>

theorem failed_auth_gets_reply_and_ends_the_loop_witness:
  "read_packet sample_iter sample_parse
     (conn_stream (conns (accept
        [sample_frame (JObj [(''type'', JStr ''auth''), (''auth'', JStr ''wrong''), (''id'', JStr ''c0'')]),
         sample_frame (JObj [(''type'', JStr ''eval''), (''code'', JStr ''1''), (''id'', JStr ''c0'')])]
        (server_init ''secret'' [''missing-packet''])) ! 0))
     = (Inr (PDict [(''type'', PStr ''auth''), (''auth'', PStr ''wrong''), (''id'', PStr ''c0'')]),
        \<lparr>incoming = [sample_frame (JObj [(''type'', JStr ''eval''), (''code'', JStr ''1''), (''id'', JStr ''c0'')])],
         written = []\<rparr>)
   \<and> (\<exists>frame.
         drop 4 frame = sample_render
           (JObj [(''type'', JStr ''auth-response''), (''success'', JBool False), (''id'', JStr ''c0'')])
       \<and> conn_stream (conns (server_run sample_render sample_iter sample_parse
            (accept
              [sample_frame (JObj [(''type'', JStr ''auth''), (''auth'', JStr ''wrong''), (''id'', JStr ''c0'')]),
               sample_frame (JObj [(''type'', JStr ''eval''), (''code'', JStr ''1''), (''id'', JStr ''c0'')])]
              (server_init ''secret'' [''missing-packet'']))
            [Iterate 0, Iterate 0, Iterate 0]) ! 0)
         = \<lparr>incoming = [sample_frame (JObj [(''type'', JStr ''eval''), (''code'', JStr ''1''), (''id'', JStr ''c0'')])],
            written = [frame]\<rparr>
       \<and> tasks_of 0 (server_run sample_render sample_iter sample_parse
            (accept
              [sample_frame (JObj [(''type'', JStr ''auth''), (''auth'', JStr ''wrong''), (''id'', JStr ''c0'')]),
               sample_frame (JObj [(''type'', JStr ''eval''), (''code'', JStr ''1''), (''id'', JStr ''c0'')])]
              (server_init ''secret'' [''missing-packet'']))
            [Iterate 0, Iterate 0, Iterate 0]) = [])"
proof -
  let ?A = "sample_frame (JObj [(''type'', JStr ''auth''), (''auth'', JStr ''wrong''), (''id'', JStr ''c0'')])"
  let ?E = "sample_frame (JObj [(''type'', JStr ''eval''), (''code'', JStr ''1''), (''id'', JStr ''c0'')])"
  let ?s = "accept [?A, ?E] (server_init ''secret'' [''missing-packet''])"
  let ?kvs = "[(''type'', PStr ''auth''), (''auth'', PStr ''wrong''), (''id'', PStr ''c0'')]"
  let ?st = "\<lparr>incoming = [?E], written = []\<rparr>"
  have 1: "0 < length (conns ?s)" and 2: "state (conns ?s ! 0) = Running"
    and 3: "\<not> authed (conns ?s ! 0)" and 4: "\<not> closing ?s"
    by (simp_all add: accept_def server_init_def)
  have 5: "read_packet sample_iter sample_parse (conn_stream (conns ?s ! 0)) = (Inr (PDict ?kvs), ?st)"
    by (simp add: sample_eval server_eval)
  have 6: "map_of ?kvs ''auth'' \<noteq> Some (PStr (auth ?s))"
    by (simp add: accept_def server_init_def)
  have 7: "map_of ?kvs ''id'' = Some (PStr ''c0'')" by simp
  have rendered: "dumps sample_render (auth_response False (PStr ''c0'')) = sample_render
      (JObj [(''type'', JStr ''auth-response''), (''success'', JBool False), (''id'', JStr ''c0'')])"
    by (simp add: dumps_def auth_response_def)
  have 8: "length (dumps sample_render (auth_response False (PStr ''c0''))) \<le> 65531"
    by (simp add: rendered sample_render_def sample_texts_def)
  have t: "tasks_of 0 ?s = []" by (simp add: tasks_of_def accept_def server_init_def)
  from failed_auth_gets_reply_and_ends_the_loop [OF 1 2 3 4 5 6 7 8]
  obtain frame where
    f: "drop 4 frame = dumps sample_render (auth_response False (PStr ''c0''))"
    and a: "\<And>evs. conn_stream (conns (server_run sample_render sample_iter sample_parse ?s (Iterate 0 # evs)) ! 0)
                     = ?st\<lparr>written := written ?st @ [frame]\<rparr>
                 \<and> tasks_of 0 (server_run sample_render sample_iter sample_parse ?s (Iterate 0 # evs))
                     = tasks_of 0 ?s"
    by blast
  from a [of "[Iterate 0, Iterate 0]"] f t 5 show ?thesis
    by (intro conjI exI [of _ frame]) (simp_all add: rendered)
qed

text \<open>
  The claim as it was stated fails for a first packet without an \<^verbatim>\<open>id\<close> field, here
  \<^verbatim>\<open>{"type": "auth"}\<close>, which has no \<^verbatim>\<open>auth\<close> field either: building the reply raises
  \<^verbatim>\<open>KeyError\<close> at \<^verbatim>\<open>packet.id\<close>, the task ends with the exception, and nothing has been
  written.
\<close>

theorem failed_auth_gets_reply_and_ends_the_loop_counterexample:
  "state (conns (server_run sample_render sample_iter sample_parse
       (server_init ''secret'' [''missing-packet''])
       [Accept [sample_frame (JObj [(''type'', JStr ''auth'')])], Iterate 0]) ! 0)
     = Failed KeyError
   \<and> written (conn_stream (conns (server_run sample_render sample_iter sample_parse
       (server_init ''secret'' [''missing-packet''])
       [Accept [sample_frame (JObj [(''type'', JStr ''auth'')])], Iterate 0]) ! 0)) = []"
  by (simp add: sample_eval server_eval)

subsection \<open>The list of connections\<close>

text \<open>
  Claim C10. Accepting a connection appends it to \<open>connections\<close>. An event removes a
  connection from the list only if it is a pass of that connection's own loop which reads
  a \<^verbatim>\<open>disconnect\<close> packet while the connection is authenticated. A connection whose
  task has ended while it was in the list stays in the list whatever happens afterwards;
  in particular a connection that fails authentication ends its task and stays in the
  list.
\<close>

theorem connection_leaves_list_only_on_disconnect:
  "connections (server_step render set_iter parse s (Accept input)) = connections s @ [length (conns s)]
   \<and> (i \<in> set (connections s) \<and> i \<notin> set (connections (server_step render set_iter parse s ev))
        \<longrightarrow> ev = Iterate i \<and> reads_disconnect set_iter parse s i)
   \<and> (i < length (conns s) \<and> state (conns s ! i) \<noteq> Running \<and> i \<in> set (connections s)
        \<longrightarrow> i \<in> set (connections (server_run render set_iter parse s evs)))
   \<and> (i < length (conns s) \<and> state (conns s ! i) = Running \<and> \<not> authed (conns s ! i)
        \<and> \<not> closing s \<and> fst (read_packet set_iter parse (conn_stream (conns s ! i))) = Inr packet
        \<and> dict_get packet ''auth'' PNone \<noteq> Inr (PStr (auth s)) \<and> i \<in> set (connections s)
        \<longrightarrow> state (conns (server_step render set_iter parse s (Iterate i)) ! i) \<noteq> Running
          \<and> i \<in> set (connections (server_run render set_iter parse s (Iterate i # evs))))"
proof (intro conjI impI)
  show "connections (server_step render set_iter parse s (Accept input))
          = connections s @ [length (conns s)]"
    by (simp add: server_step_def accept_def)
next
  assume "i \<in> set (connections s) \<and> i \<notin> set (connections (server_step render set_iter parse s ev))"
  then show "ev = Iterate i" and "reads_disconnect set_iter parse s i"
    using step_connections [of i s render set_iter parse ev] by blast+
next
  assume "i < length (conns s) \<and> state (conns s ! i) \<noteq> Running \<and> i \<in> set (connections s)"
  then show "i \<in> set (connections (server_run render set_iter parse s evs))"
    using run_stopped [of i s render set_iter parse evs] by blast
next
  let ?s1 = "server_step render set_iter parse s (Iterate i)"
  assume a: "i < length (conns s) \<and> state (conns s ! i) = Running \<and> \<not> authed (conns s ! i)
        \<and> \<not> closing s \<and> fst (read_packet set_iter parse (conn_stream (conns s ! i))) = Inr packet
        \<and> dict_get packet ''auth'' PNone \<noteq> Inr (PStr (auth s)) \<and> i \<in> set (connections s)"
  then show stopped: "state (conns ?s1 ! i) \<noteq> Running"
    using failed_auth_stops [of i s set_iter parse packet render] by blast
  have len: "i < length (conns ?s1)"
    using a step_length [of s render set_iter parse "Iterate i"] by simp
  have "\<not> reads_disconnect set_iter parse s i" using a by (simp add: reads_disconnect_def)
  then have "i \<in> set (connections ?s1)"
    using a step_connections [of i s render set_iter parse "Iterate i"] by blast
  then show "i \<in> set (connections (server_run render set_iter parse s (Iterate i # evs)))"
    using run_stopped [OF len stopped, of render set_iter parse evs] by (simp add: server_run_Cons)
qed

text \<open>
  Two connections are accepted. The first authenticates; its next pass reads
  \<^verbatim>\<open>disconnect\<close> and removes it from the list. The second sends a wrong secret: its task
  ends and it is still in the list after further events.
\<close>

theorem connection_leaves_list_only_on_disconnect_witness:
  "connections (server_run sample_render sample_iter sample_parse (server_init ''secret'' [''missing-packet''])
      [Accept [sample_frame (JObj [(''type'', JStr ''auth''), (''auth'', JStr ''secret''), (''id'', JStr ''c0'')]),
               sample_frame (JObj [(''type'', JStr ''disconnect'')])],
       Accept [sample_frame (JObj [(''type'', JStr ''auth''), (''auth'', JStr ''wrong''), (''id'', JStr ''c0'')])],
       Iterate 0]) = [0, 1]
   \<and> reads_disconnect sample_iter sample_parse
       (server_run sample_render sample_iter sample_parse (server_init ''secret'' [''missing-packet''])
         [Accept [sample_frame (JObj [(''type'', JStr ''auth''), (''auth'', JStr ''secret''), (''id'', JStr ''c0'')]),
                  sample_frame (JObj [(''type'', JStr ''disconnect'')])],
          Accept [sample_frame (JObj [(''type'', JStr ''auth''), (''auth'', JStr ''wrong''), (''id'', JStr ''c0'')])],
          Iterate 0]) 0
   \<and> connections (server_run sample_render sample_iter sample_parse (server_init ''secret'' [''missing-packet''])
      [Accept [sample_frame (JObj [(''type'', JStr ''auth''), (''auth'', JStr ''secret''), (''id'', JStr ''c0'')]),
               sample_frame (JObj [(''type'', JStr ''disconnect'')])],
       Accept [sample_frame (JObj [(''type'', JStr ''auth''), (''auth'', JStr ''wrong''), (''id'', JStr ''c0'')])],
       Iterate 0, Iterate 0]) = [1]
   \<and> 1 \<in> set (connections (server_run sample_render sample_iter sample_parse (server_init ''secret'' [''missing-packet''])
      [Accept [sample_frame (JObj [(''type'', JStr ''auth''), (''auth'', JStr ''secret''), (''id'', JStr ''c0'')]),
               sample_frame (JObj [(''type'', JStr ''disconnect'')])],
       Accept [sample_frame (JObj [(''type'', JStr ''auth''), (''auth'', JStr ''wrong''), (''id'', JStr ''c0'')])],
       Iterate 0, Iterate 1, Iterate 1, Iterate 0, Close, Iterate 1]))"
proof -
  let ?A = "sample_frame (JObj [(''type'', JStr ''auth''), (''auth'', JStr ''secret''), (''id'', JStr ''c0'')])"
  let ?D = "sample_frame (JObj [(''type'', JStr ''disconnect'')])"
  let ?W = "sample_frame (JObj [(''type'', JStr ''auth''), (''auth'', JStr ''wrong''), (''id'', JStr ''c0'')])"
  let ?s = "server_run sample_render sample_iter sample_parse (server_init ''secret'' [''missing-packet''])
              [Accept [?A, ?D], Accept [?W], Iterate 0]"
  let ?packet = "PDict [(''type'', PStr ''auth''), (''auth'', PStr ''wrong''), (''id'', PStr ''c0'')]"
  have c: "connections ?s = [0, 1]"
    by (simp add: sample_eval server_eval)
  have c': "connections (server_step sample_render sample_iter sample_parse ?s (Iterate 0)) = [1]"
    by (simp add: sample_eval server_eval)
  have h: "Suc 0 < length (conns ?s)" "state (conns ?s ! Suc 0) = Running" "\<not> authed (conns ?s ! Suc 0)"
    "\<not> closing ?s" "fst (read_packet sample_iter sample_parse (conn_stream (conns ?s ! Suc 0))) = Inr ?packet"
    "dict_get ?packet ''auth'' PNone \<noteq> Inr (PStr (auth ?s))"
    by (simp_all add: sample_eval server_eval)
  note T = connection_leaves_list_only_on_disconnect
  from c c' T [where render = sample_render and set_iter = sample_iter and parse = sample_parse and s = ?s and i = 0
      and ev = "Iterate 0"]
  have rd: "reads_disconnect sample_iter sample_parse ?s 0" by simp
  from c h T [where render = sample_render and set_iter = sample_iter and parse = sample_parse and s = ?s and i = "Suc 0"
      and packet = ?packet and evs = "[Iterate 1, Iterate 0, Close, Iterate 1]"]
  have stay: "Suc 0 \<in> set (connections (server_run sample_render sample_iter sample_parse ?s
                  (Iterate (Suc 0) # [Iterate 1, Iterate 0, Close, Iterate 1])))"
    by simp
  have run2: "server_run sample_render sample_iter sample_parse (server_init ''secret'' [''missing-packet''])
                [Accept [?A, ?D], Accept [?W], Iterate 0, Iterate 0]
              = server_step sample_render sample_iter sample_parse ?s (Iterate 0)"
    by (simp add: server_run_def)
  have run3: "server_run sample_render sample_iter sample_parse (server_init ''secret'' [''missing-packet''])
                [Accept [?A, ?D], Accept [?W], Iterate 0, Iterate 1, Iterate 1, Iterate 0, Close, Iterate 1]
              = server_run sample_render sample_iter sample_parse ?s
                  (Iterate (Suc 0) # [Iterate 1, Iterate 0, Close, Iterate 1])"
    by (simp add: server_run_def)
  show ?thesis
    using c rd c' stay unfolding run2 run3 by simp
qed

end
